theory Spec2Isabelle
  imports Main
begin

section \<open>Data model\<close>

text \<open>
  The cache of \<^verbatim>\<open>src/index.js\<close> is a JavaScript class whose methods are asynchronous:
  a call runs synchronously up to its first \<^verbatim>\<open>await\<close> and is resumed later from the
  microtask queue. The model keeps that structure. Every method is cut at its
  \<^verbatim>\<open>await\<close>s into synchronous segments, each a function from world to world; the
  world holds the primary store, the heaps of the mutable objects the code shares
  (entries and responses), the promise table, the continuations waiting on promises and
  the microtask queue.

  Durations and clock readings are JavaScript numbers holding milliseconds; they are
  modelled as integers. A header map is a JavaScript object, modelled as a map.
\<close>

type_synonym key = string
type_synonym time = int
type_synonym headers = "string \<rightharpoonup> string"

text \<open>References to response objects, entry objects and promises; a caller-supplied
  fetch callback is an opaque identifier, and so is one invocation of \<^verbatim>\<open>getCached\<close>.\<close>

type_synonym rref = nat
type_synonym eref = nat
type_synonym pid = nat
type_synonym callback = nat
type_synonym cid = nat

record request =
  req_method :: "string option"
  req_url :: "string option"
  req_headers :: headers

datatype body = Buffer string | NotBuffer

text \<open>A response object. \<^verbatim>\<open>headers\<close> may be missing; \<^verbatim>\<open>ttl\<close> is the field that
  \<^verbatim>\<open>getCached\<close> adds on a cache hit.\<close>

record response =
  status :: int
  headers :: "headers option"
  body :: body
  ttl :: "time option"

text \<open>
  The policy calculator (\<^verbatim>\<open>http-cache-semantics\<close>, or \<^verbatim>\<open>options.CachePolicy\<close>) is an
  external collaborator. A policy object is modelled by what its methods answer; the
  methods that read the clock take the current time as their first argument.
  \<^verbatim>\<open>revalidatedPolicy\<close> receives whatever the fetch callback resolved to, which may be
  \<^verbatim>\<open>null\<close>. The methods are total: an exception raised inside the collaborator is
  not modelled.
\<close>

codatatype policy = CachePolicy
  (satisfiesWithoutRevalidation: "time \<Rightarrow> request \<Rightarrow> bool")
  (timeToLive: "time \<Rightarrow> time")
  (responseHeaders: "time \<Rightarrow> headers")
  (revalidationHeaders: "request \<Rightarrow> headers")
  (revalidatedPolicy: "time \<Rightarrow> request \<Rightarrow> response option \<Rightarrow> policy \<times> bool")

text \<open>The class \<^verbatim>\<open>new this._CachePolicy(request, res, {shared:true, ignoreCargoCult:true})\<close>:
  the options are constants of the source, the clock is read at construction.\<close>

type_synonym policy_class = "time \<Rightarrow> request \<Rightarrow> response \<Rightarrow> policy"

subsection \<open>The constructor\<close>

text \<open>\<^verbatim>\<open>options\<close> as the constructor reads it. A missing option is \<^verbatim>\<open>undefined\<close>.
  \<^verbatim>\<open>options.storage\<close> (a replacement for the LRU store) is not modelled: the model
  always uses the store the constructor builds.\<close>

record options =
  opt_busyTimeout :: "time option"
  opt_errorTimeout :: "time option"
  opt_size :: "int option"
  opt_maxAge :: "time option"
  opt_CachePolicy :: "policy_class option"
  opt_coldStorage :: bool

text \<open>The fields of a \<^verbatim>\<open>Cache\<close> object; \<^verbatim>\<open>lru_max\<close> and \<^verbatim>\<open>lru_maxAge\<close> are the
  \<^verbatim>\<open>max\<close> and \<^verbatim>\<open>maxAge\<close> handed to \<^verbatim>\<open>new LRU\<close>.\<close>

record cache =
  busyTimeout :: time
  errorTimeout :: time
  lru_max :: int
  lru_maxAge :: time
  CachePolicy_class :: policy_class
  coldStorage :: bool

text \<open>\<^verbatim>\<open>x || d\<close> on a number that may be missing: \<^verbatim>\<open>undefined\<close> and \<^verbatim>\<open>0\<close> are falsy.\<close>

definition js_or :: "int option \<Rightarrow> int \<Rightarrow> int" where
  "js_or x d = (case x of None \<Rightarrow> d | Some v \<Rightarrow> if v = 0 then d else v)"

text \<open>Lines 7 to 29. \<^verbatim>\<open>defaultPolicy\<close> stands for the imported
  \<^verbatim>\<open>http-cache-semantics\<close> class.\<close>

definition new_Cache :: "policy_class \<Rightarrow> options \<Rightarrow> cache" where
  "new_Cache defaultPolicy opts =
     \<lparr> busyTimeout = js_or (opt_busyTimeout opts) 2000,
       errorTimeout = js_or (opt_errorTimeout opts) 200,
       lru_max = js_or (opt_size opts) (500 * 1024 * 1024),
       lru_maxAge = js_or (opt_maxAge opts) (24 * 3600 * 1000),
       CachePolicy_class = (case opt_CachePolicy opts of None \<Rightarrow> defaultPolicy | Some c \<Rightarrow> c),
       coldStorage = opt_coldStorage opts \<rparr>"

text \<open>\<^verbatim>\<open>new Cache()\<close>: the default argument \<^verbatim>\<open>options = {}\<close>.\<close>

definition no_options :: options where
  "no_options =
     \<lparr> opt_busyTimeout = None, opt_errorTimeout = None, opt_size = None,
       opt_maxAge = None, opt_CachePolicy = None, opt_coldStorage = False \<rparr>"

section \<open>The world: stores, heaps, promises and the microtask queue\<close>

text \<open>Failures: the three errors the source raises itself, the \<^verbatim>\<open>TypeError\<close> of
  reading a property of \<^verbatim>\<open>null\<close> or \<^verbatim>\<open>undefined\<close>, and a rejection reason chosen
  by an external collaborator (the fetch callback or the cold storage).\<close>

datatype error =
    BadCacheArgs
  | EmptyResult key
  | UnexpectedRevalidation
  | TypeError
  | Rejection string

text \<open>A promise is unsettled, fulfilled with a response object (or \<^verbatim>\<open>null\<close>), or
  rejected.\<close>

datatype pstate = Unsettled | Fulfilled "rref option" | Failed error

text \<open>An entry object of the primary store. A field the source leaves out of an object
  literal is \<^verbatim>\<open>undefined\<close>, hence falsy: \<open>False\<close> or \<open>None\<close> here. The name
  \<^verbatim>\<open>inColdStoarge\<close> is the source's spelling.\<close>

record entry =
  cost :: int
  temp :: bool
  isError :: bool
  policy :: "policy option"
  inColdStoarge :: bool
  promise :: pid

text \<open>What \<^verbatim>\<open>_getResult\<close> resolves to: \<^verbatim>\<open>{res, policy, inColdStoarge}\<close>.\<close>

type_synonym getresult = "rref option \<times> policy option \<times> bool"

text \<open>
  The suspension points of the source. Each constructor is the rest of a function after
  one \<^verbatim>\<open>await\<close> (or one \<^verbatim>\<open>.then\<close>/\<^verbatim>\<open>.catch\<close> callback), with the local variables
  it still needs. The last argument of the \<^verbatim>\<open>_getResult\<close> continuations is the
  \<^verbatim>\<open>resultPromise\<close> that the outcome will settle.
\<close>

datatype cont =
    AfterTemp cid key request callback
  | AfterHit cid key eref
  | ReturnTo cid
  | AfterColdGet key request "eref option" callback pid
  | AfterRevalidation key request eref callback headers pid
  | AfterStored key policy pid
  | AfterRefetch key policy pid
  | AfterFetch key request pid
  | AfterDisposed key eref
  | ColdSetSettled eref

text \<open>A microtask: a continuation with the state of the promise it waited for, or one
  of the two handlers chained on \<^verbatim>\<open>_getResult\<close> (line 55 and line 72) with the
  outcome of the promise before it.\<close>

datatype job =
    Resume cont pstate
  | ThenJob key pid "error + getresult"
  | CatchJob key pid "error + rref option"

text \<open>
  The state of the program and of its environment: the clock; the primary store, which
  maps a key to an entry object with the time it was stored and its maximum age; the
  heap of entry objects and the next free reference; the heap of response objects;
  the promise table and the next free promise; the continuations registered on
  unsettled promises, in registration order; the microtask queue; the log of the calls
  made to the fetch callbacks (callback, header map, promise returned) and to the cold
  storage; what each call of \<^verbatim>\<open>getCached\<close> has delivered to its caller; and the
  future draws of \<^verbatim>\<open>Math.random()*2000\<close>.
\<close>

record world =
  now :: time
  storage :: "key \<rightharpoonup> eref \<times> time \<times> time"
  entries :: "eref \<Rightarrow> entry"
  next_entry :: eref
  responses :: "rref \<Rightarrow> response"
  promises :: "pid \<Rightarrow> pstate"
  next_promise :: pid
  waiting :: "(pid \<times> cont) list"
  microtasks :: "job list"
  fetchLog :: "(callback \<times> headers \<times> pid) list"
  coldGets :: "(key \<times> pid) list"
  coldSets :: "(key \<times> rref option \<times> time \<times> pid) list"
  results :: "cid \<rightharpoonup> error + rref option"
  jitters :: "time list"

subsection \<open>Promises\<close>

definition new_promise :: "world \<Rightarrow> pid \<times> world" where
  "new_promise w =
     (next_promise w,
      w\<lparr>promises := (promises w)(next_promise w := Unsettled),
        next_promise := Suc (next_promise w)\<rparr>)"

text \<open>\<^verbatim>\<open>await p\<close> (or \<^verbatim>\<open>p.then(k)\<close>): the continuation is queued as a microtask as soon
  as \<open>p\<close> is settled.\<close>

definition await :: "pid \<Rightarrow> cont \<Rightarrow> world \<Rightarrow> world" where
  "await p k w =
     (if promises w p = Unsettled then w\<lparr>waiting := waiting w @ [(p, k)]\<rparr>
      else w\<lparr>microtasks := microtasks w @ [Resume k (promises w p)]\<rparr>)"

text \<open>Settling a promise queues its waiting continuations in the order they were
  registered.\<close>

definition settle :: "pid \<Rightarrow> pstate \<Rightarrow> world \<Rightarrow> world" where
  "settle p v w =
     w\<lparr>promises := (promises w)(p := v),
       microtasks := microtasks w @
         map (\<lambda>(q, k). Resume k v) (filter (\<lambda>(q, k). q = p) (waiting w)),
       waiting := filter (\<lambda>(q, k). q \<noteq> p) (waiting w)\<rparr>"

text \<open>The value an \<^verbatim>\<open>async\<close> function call finally delivers to its caller.\<close>

definition deliver :: "cid \<Rightarrow> error + rref option \<Rightarrow> world \<Rightarrow> world" where
  "deliver i v w = w\<lparr>results := (results w)(i \<mapsto> v)\<rparr>"

subsection \<open>External collaborators\<close>

text \<open>Calling the fetch callback, \<^verbatim>\<open>coldStorage.get\<close> or \<^verbatim>\<open>coldStorage.set\<close> records
  the call and returns a fresh promise, which the environment settles later.\<close>

definition onCacheMissCallback :: "callback \<Rightarrow> headers \<Rightarrow> world \<Rightarrow> pid \<times> world" where
  "onCacheMissCallback cb hdrs w =
     (let (p, w1) = new_promise w
      in (p, w1\<lparr>fetchLog := fetchLog w1 @ [(cb, hdrs, p)]\<rparr>))"

definition coldStorage_get :: "key \<Rightarrow> world \<Rightarrow> pid \<times> world" where
  "coldStorage_get url w =
     (let (p, w1) = new_promise w
      in (p, w1\<lparr>coldGets := coldGets w1 @ [(url, p)]\<rparr>))"

definition coldStorage_set :: "key \<Rightarrow> rref option \<Rightarrow> time \<Rightarrow> world \<Rightarrow> pid \<times> world" where
  "coldStorage_set url r t w =
     (let (p, w1) = new_promise w
      in (p, w1\<lparr>coldSets := coldSets w1 @ [(url, r, t, p)]\<rparr>))"

definition external :: "world \<Rightarrow> pid set" where
  "external w =
     set (map (\<lambda>(cb, h, p). p) (fetchLog w)) \<union> set (map snd (coldGets w)) \<union>
     set (map (\<lambda>(u, r, t, p). p) (coldSets w))"

text \<open>\<^verbatim>\<open>Math.random()*2000\<close>: the draws are an input of the model.\<close>

definition random_2000 :: "world \<Rightarrow> time \<times> world" where
  "random_2000 w = (case jitters w of [] \<Rightarrow> (0, w) | j # js \<Rightarrow> (j, w\<lparr>jitters := js\<rparr>))"

subsection \<open>Cold-storage demotion\<close>

text \<open>Lines 116 to 127. The \<^verbatim>\<open>.catch\<close> callback of line 121 is the continuation
  \<open>ColdSetSettled\<close>. Reading \<^verbatim>\<open>cached.policy.timeToLive\<close> without a policy is a
  \<^verbatim>\<open>TypeError\<close>.\<close>

definition putInColdStorage ::
  "cache \<Rightarrow> key \<Rightarrow> rref option \<Rightarrow> eref \<Rightarrow> world \<Rightarrow> error + world" where
  "putInColdStorage this url r cached w =
     (if \<not> inColdStoarge (entries w cached) \<and> coldStorage this then
        (case policy (entries w cached) of
           None \<Rightarrow> Inl TypeError
         | Some pol \<Rightarrow>
             let t = timeToLive pol (now w) in
             if t \<ge> 3600 * 1000 then
               let w1 = w\<lparr>entries := (entries w)
                          (cached := (entries w cached)\<lparr>inColdStoarge := True\<rparr>)\<rparr>;
                   (p, w2) = coldStorage_set url r t w1
               in Inr (await p (ColdSetSettled cached) w2)
             else Inr w)
      else Inr w)"

subsection \<open>The primary store\<close>

text \<open>
  Modelled from the spec: the primary store is the external \<^verbatim>\<open>lru-cache\<close> package,
  which is not part of the source. Its contract in the spec is key to entry storage
  with a per-entry expiry: \<^verbatim>\<open>get(key)\<close> returns the entry or absent, \<^verbatim>\<open>set(key, entry,
  ttl)\<close> overwrites and triggers the dispose callback on the replacement of an entry
  that has not expired, \<^verbatim>\<open>delete(key)\<close> removes. An entry is kept with the time it was
  stored and its maximum age and is absent once older than that. Eviction by total
  cost is not modelled.
\<close>

definition storage_get :: "world \<Rightarrow> key \<Rightarrow> eref option" where
  "storage_get w url =
     (case storage w url of
        None \<Rightarrow> None
      | Some (c, stored, maxAge) \<Rightarrow> if now w - stored > maxAge then None else Some c)"

text \<open>The dispose callback of lines 16 to 22.\<close>

definition dispose :: "key \<Rightarrow> eref \<Rightarrow> world \<Rightarrow> world" where
  "dispose url cached w =
     (if \<not> temp (entries w cached) \<and> policy (entries w cached) \<noteq> None
      then await (promise (entries w cached)) (AfterDisposed url cached) w
      else w)"

text \<open>\<^verbatim>\<open>storage.set(url, {...}, maxAge)\<close>: the object literal becomes a new entry
  object.\<close>

definition storage_set :: "key \<Rightarrow> entry \<Rightarrow> time \<Rightarrow> world \<Rightarrow> world" where
  "storage_set url e maxAge w =
     (let w1 = (case storage_get w url of None \<Rightarrow> w | Some old \<Rightarrow> dispose url old w);
          a = next_entry w1
      in w1\<lparr>entries := (entries w1)(a := e),
            next_entry := Suc a,
            storage := (storage w1)(url \<mapsto> (a, now w1, maxAge))\<rparr>)"

definition storage_del :: "key \<Rightarrow> world \<Rightarrow> world" where
  "storage_del url w = w\<lparr>storage := (storage w)(url := None)\<rparr>"

subsection \<open>Response objects\<close>

text \<open>\<^verbatim>\<open>res.headers = h\<close> and \<^verbatim>\<open>res.headers[k] = v\<close>. The second is only ever run
  right after the first, so the headers are present.\<close>

definition set_headers :: "rref \<Rightarrow> headers \<Rightarrow> world \<Rightarrow> world" where
  "set_headers r h w =
     w\<lparr>responses := (responses w)(r := (responses w r)\<lparr>headers := Some h\<rparr>)\<rparr>"

definition set_header :: "rref \<Rightarrow> string \<Rightarrow> string \<Rightarrow> world \<Rightarrow> world" where
  "set_header r k v w =
     w\<lparr>responses := (responses w)
         (r := (responses w r)\<lparr>headers := map_option (\<lambda>h. h(k \<mapsto> v)) (headers (responses w r))\<rparr>)\<rparr>"

definition set_ttl :: "rref \<Rightarrow> time \<Rightarrow> world \<Rightarrow> world" where
  "set_ttl r t w = w\<lparr>responses := (responses w)(r := (responses w r)\<lparr>ttl := Some t\<rparr>)\<rparr>"

section \<open>The coordinator: \<^verbatim>\<open>_getResult\<close>\<close>

text \<open>When \<^verbatim>\<open>_getResult\<close> returns or throws, its promise settles and the handler of
  line 55 is queued.\<close>

definition getResult_done :: "key \<Rightarrow> pid \<Rightarrow> error + getresult \<Rightarrow> world \<Rightarrow> world" where
  "getResult_done url resultPromise out w =
     w\<lparr>microtasks := microtasks w @ [ThenJob url resultPromise out]\<rparr>"

text \<open>Lines 93 to 107, up to the \<^verbatim>\<open>await\<close> of the fetch callback: with a cached
  entry that has a policy and is not an error the callback gets the revalidation
  headers, otherwise an empty header map.\<close>

definition getResult_fetch ::
  "key \<Rightarrow> request \<Rightarrow> eref option \<Rightarrow> callback \<Rightarrow> pid \<Rightarrow> world \<Rightarrow> world" where
  "getResult_fetch url rq cached cb resultPromise w =
     (case cached of
        None \<Rightarrow>
          (let (p, w1) = onCacheMissCallback cb Map.empty w
           in await p (AfterFetch url rq resultPromise) w1)
      | Some c \<Rightarrow>
          (case policy (entries w c) of
             None \<Rightarrow>
               (let (p, w1) = onCacheMissCallback cb Map.empty w
                in await p (AfterFetch url rq resultPromise) w1)
           | Some pol \<Rightarrow>
               if \<not> isError (entries w c) then
                 (let hdrs = revalidationHeaders pol rq;
                      (p, w1) = onCacheMissCallback cb hdrs w
                  in await p (AfterRevalidation url rq c cb hdrs resultPromise) w1)
               else
                 (let (p, w1) = onCacheMissCallback cb Map.empty w
                  in await p (AfterFetch url rq resultPromise) w1)))"

text \<open>Lines 84 and 85: the synchronous start of \<^verbatim>\<open>_getResult\<close>.\<close>

definition getResult ::
  "cache \<Rightarrow> key \<Rightarrow> request \<Rightarrow> eref option \<Rightarrow> callback \<Rightarrow> pid \<Rightarrow> world \<Rightarrow> world" where
  "getResult this url rq cached cb resultPromise w =
     (if coldStorage this then
        (let (p, w1) = coldStorage_get url w
         in await p (AfterColdGet url rq cached cb resultPromise) w1)
      else getResult_fetch url rq cached cb resultPromise w)"

text \<open>Lines 85 to 91, after the cold-storage read. A failed read was logged and turned
  into \<^verbatim>\<open>undefined\<close> by the \<^verbatim>\<open>.catch\<close> of line 85.\<close>

definition afterColdGet ::
  "cache \<Rightarrow> key \<Rightarrow> request \<Rightarrow> eref option \<Rightarrow> callback \<Rightarrow> pid \<Rightarrow> pstate \<Rightarrow> world \<Rightarrow> world" where
  "afterColdGet this url rq cached cb resultPromise v w =
     (case v of
        Unsettled \<Rightarrow> w
      | Failed err \<Rightarrow> getResult_fetch url rq cached cb resultPromise w
      | Fulfilled None \<Rightarrow> getResult_fetch url rq cached cb resultPromise w
      | Fulfilled (Some r) \<Rightarrow>
          getResult_done url resultPromise
            (Inr (Some r, Some (CachePolicy_class this (now w) rq (responses w r)), True)) w)"

text \<open>The object \<^verbatim>\<open>{headers}\<close> of line 97: a request with nothing but headers.\<close>

definition headers_only :: "headers \<Rightarrow> request" where
  "headers_only h = \<lparr>req_method = None, req_url = None, req_headers = h\<rparr>"

text \<open>Lines 95 to 104, after the revalidation request.\<close>

definition afterRevalidation ::
  "key \<Rightarrow> request \<Rightarrow> eref \<Rightarrow> callback \<Rightarrow> headers \<Rightarrow> pid \<Rightarrow> pstate \<Rightarrow> world \<Rightarrow> world" where
  "afterRevalidation url rq cached cb hdrs resultPromise v w =
     (case v of
        Unsettled \<Rightarrow> w
      | Failed err \<Rightarrow> getResult_done url resultPromise (Inl err) w
      | Fulfilled r \<Rightarrow>
          (case policy (entries w cached) of
             None \<Rightarrow> getResult_done url resultPromise (Inl TypeError) w
           | Some old \<Rightarrow>
               let (pol, modified) =
                     revalidatedPolicy old (now w) (headers_only hdrs)
                       (map_option (responses w) r);
                   w1 = w\<lparr>entries := (entries w)
                          (cached := (entries w cached)\<lparr>policy := Some pol\<rparr>)\<rparr>
               in if \<not> modified then
                    await (promise (entries w1 cached)) (AfterStored url pol resultPromise) w1
                  else
                    (case r of
                       None \<Rightarrow> getResult_done url resultPromise (Inl TypeError) w1
                     | Some r' \<Rightarrow>
                         if status (responses w1 r') = 304 then
                           (let (p, w2) = onCacheMissCallback cb Map.empty w1
                            in await p (AfterRefetch url pol resultPromise) w2)
                         else getResult_done url resultPromise (Inr (r, Some pol, False)) w1)))"

text \<open>Lines 100 and 102 to 104: \<^verbatim>\<open>res\<close> is what the awaited promise gave.\<close>

definition afterSecondAwait :: "key \<Rightarrow> policy \<Rightarrow> pid \<Rightarrow> pstate \<Rightarrow> world \<Rightarrow> world" where
  "afterSecondAwait url pol resultPromise v w =
     (case v of
        Unsettled \<Rightarrow> w
      | Failed err \<Rightarrow> getResult_done url resultPromise (Inl err) w
      | Fulfilled r \<Rightarrow> getResult_done url resultPromise (Inr (r, Some pol, False)) w)"

text \<open>Lines 107 to 113, after the unconditional fetch.\<close>

definition afterFetch ::
  "cache \<Rightarrow> key \<Rightarrow> request \<Rightarrow> pid \<Rightarrow> pstate \<Rightarrow> world \<Rightarrow> world" where
  "afterFetch this url rq resultPromise v w =
     (case v of
        Unsettled \<Rightarrow> w
      | Failed err \<Rightarrow> getResult_done url resultPromise (Inl err) w
      | Fulfilled None \<Rightarrow> getResult_done url resultPromise (Inl TypeError) w
      | Fulfilled (Some r) \<Rightarrow>
          if status (responses w r) = 304 then
            getResult_done url resultPromise (Inl UnexpectedRevalidation) w
          else
            getResult_done url resultPromise
              (Inr (Some r, Some (CachePolicy_class this (now w) rq (responses w r)), False)) w)"

section \<open>The facade: \<^verbatim>\<open>getCached\<close>\<close>

text \<open>The handler of lines 55 to 71. A rejection of \<^verbatim>\<open>_getResult\<close> passes through to
  the \<^verbatim>\<open>.catch\<close> of line 72, and so does whatever the handler returns or throws.\<close>

definition thenHandler ::
  "key \<Rightarrow> pid \<Rightarrow> error + getresult \<Rightarrow> world \<Rightarrow> world" where
  "thenHandler url resultPromise out w =
     (case out of
        Inl err \<Rightarrow> w\<lparr>microtasks := microtasks w @ [CatchJob url resultPromise (Inl err)]\<rparr>
      | Inr (r, pol, inCold) \<Rightarrow>
          (case (pol, r) of
             (Some pol', Some r') \<Rightarrow>
               if headers (responses w r') \<noteq> None then
                 (let w1 = set_headers r' (responseHeaders pol' (now w)) w;
                      t = timeToLive pol' (now w1);
                      w4 =
                        (if t \<noteq> 0 then
                           (let w2 = set_header r' ''im2-cache''
                                       (if inCold then ''cold'' else ''miss'') w1;
                                c = 4000 + (case body (responses w2 r') of
                                              Buffer b \<Rightarrow> int (length b)
                                            | NotBuffer \<Rightarrow> 8000);
                                (j, w3) = random_2000 w2
                            in storage_set url
                                 \<lparr>cost = c, temp = False, isError = False, policy = Some pol',
                                  inColdStoarge = inCold, promise = resultPromise\<rparr>
                                 (t + j) w3)
                         else set_header r' ''im2-cache'' ''no-cache'' (storage_del url w1))
                  in w4\<lparr>microtasks := microtasks w4 @ [CatchJob url resultPromise (Inr r)]\<rparr>)
               else
                 (let w1 = storage_del url w
                  in w1\<lparr>microtasks := microtasks w1 @
                          [CatchJob url resultPromise (Inl (EmptyResult url))]\<rparr>)
           | _ \<Rightarrow>
               (let w1 = storage_del url w
                in w1\<lparr>microtasks := microtasks w1 @
                        [CatchJob url resultPromise (Inl (EmptyResult url))]\<rparr>)))"

text \<open>The handler of lines 72 to 76; its outcome settles \<^verbatim>\<open>resultPromise\<close>.\<close>

definition catchHandler ::
  "cache \<Rightarrow> key \<Rightarrow> pid \<Rightarrow> error + rref option \<Rightarrow> world \<Rightarrow> world" where
  "catchHandler this url resultPromise out w =
     (case out of
        Inr r \<Rightarrow> settle resultPromise (Fulfilled r) w
      | Inl err \<Rightarrow>
          settle resultPromise (Failed err)
            (storage_set url
               \<lparr>cost = 30000, temp = False, isError = True, policy = None,
                inColdStoarge = False, promise = resultPromise\<rparr>
               (errorTimeout this) w))"

text \<open>Lines 54 to 80: the coordinator is started, the two handlers are chained on it,
  the \<^verbatim>\<open>temp\<close> entry is stored, and the call returns \<^verbatim>\<open>resultPromise\<close>.\<close>

definition getCached_miss ::
  "cache \<Rightarrow> cid \<Rightarrow> key \<Rightarrow> request \<Rightarrow> eref option \<Rightarrow> callback \<Rightarrow> world \<Rightarrow> world" where
  "getCached_miss this i url rq cached cb w =
     (let (resultPromise, w1) = new_promise w;
          w2 = getResult this url rq cached cb resultPromise w1;
          w3 = storage_set url
                 \<lparr>cost = 1, temp = True, isError = False, policy = None,
                  inColdStoarge = False, promise = resultPromise\<rparr>
                 (busyTimeout this) w2
      in await resultPromise (ReturnTo i) w3)"

text \<open>Lines 31 to 42 and 54 to 80: one call of \<^verbatim>\<open>getCached\<close>, up to its first
  \<^verbatim>\<open>await\<close> or its return. An empty \<^verbatim>\<open>url\<close> is falsy; a missing \<^verbatim>\<open>request\<close> or
  callback is \<open>None\<close>.\<close>

definition getCached ::
  "cache \<Rightarrow> cid \<Rightarrow> key \<Rightarrow> request option \<Rightarrow> callback option \<Rightarrow> world \<Rightarrow> world" where
  "getCached this i url request onMiss w =
     (case (request, onMiss) of
        (Some rq, Some cb) \<Rightarrow>
          if url = [] then deliver i (Inl BadCacheArgs) w
          else
            (case storage_get w url of
               None \<Rightarrow> getCached_miss this i url rq None cb w
             | Some cached \<Rightarrow>
                 if temp (entries w cached) then
                   await (promise (entries w cached)) (AfterTemp i url rq cb) w
                 else
                   (case policy (entries w cached) of
                      None \<Rightarrow> await (promise (entries w cached)) (AfterHit i url cached) w
                    | Some pol \<Rightarrow>
                        if satisfiesWithoutRevalidation pol (now w) rq
                        then await (promise (entries w cached)) (AfterHit i url cached) w
                        else getCached_miss this i url rq (Some cached) cb w))
      | _ \<Rightarrow> deliver i (Inl BadCacheArgs) w)"

text \<open>Lines 43 to 50, after \<^verbatim>\<open>await cached.promise\<close> on the hit path.\<close>

definition afterHit :: "cache \<Rightarrow> cid \<Rightarrow> key \<Rightarrow> eref \<Rightarrow> pstate \<Rightarrow> world \<Rightarrow> world" where
  "afterHit this i url cached v w =
     (case v of
        Unsettled \<Rightarrow> w
      | Failed err \<Rightarrow> deliver i (Inl err) w
      | Fulfilled r \<Rightarrow>
          (case policy (entries w cached) of
             None \<Rightarrow> deliver i (Inr r) w
           | Some pol \<Rightarrow>
               (case putInColdStorage this url r cached w of
                  Inl err \<Rightarrow> deliver i (Inl err) w
                | Inr w1 \<Rightarrow>
                    (case r of
                       None \<Rightarrow> deliver i (Inl TypeError) w1
                     | Some r' \<Rightarrow>
                         deliver i (Inr r)
                           (set_ttl r' (timeToLive pol (now w1))
                              (set_header r' ''im2-cache'' ''hit''
                                 (set_headers r' (responseHeaders pol (now w1)) w1)))))))"

text \<open>Lines 38 and 39: after the in-flight promise, the call starts over.\<close>

definition afterTemp ::
  "cache \<Rightarrow> cid \<Rightarrow> key \<Rightarrow> request \<Rightarrow> callback \<Rightarrow> pstate \<Rightarrow> world \<Rightarrow> world" where
  "afterTemp this i url rq cb v w =
     (case v of
        Unsettled \<Rightarrow> w
      | Failed err \<Rightarrow> deliver i (Inl err) w
      | Fulfilled r \<Rightarrow> getCached this i url (Some rq) (Some cb) w)"

section \<open>The event loop\<close>

definition resume :: "cache \<Rightarrow> cont \<Rightarrow> pstate \<Rightarrow> world \<Rightarrow> world" where
  "resume this k v w =
     (case k of
        AfterTemp i url rq cb \<Rightarrow> afterTemp this i url rq cb v w
      | AfterHit i url cached \<Rightarrow> afterHit this i url cached v w
      | ReturnTo i \<Rightarrow>
          (case v of
             Unsettled \<Rightarrow> w
           | Fulfilled r \<Rightarrow> deliver i (Inr r) w
           | Failed err \<Rightarrow> deliver i (Inl err) w)
      | AfterColdGet url rq cached cb p \<Rightarrow> afterColdGet this url rq cached cb p v w
      | AfterRevalidation url rq cached cb hdrs p \<Rightarrow>
          afterRevalidation url rq cached cb hdrs p v w
      | AfterStored url pol p \<Rightarrow> afterSecondAwait url pol p v w
      | AfterRefetch url pol p \<Rightarrow> afterSecondAwait url pol p v w
      | AfterFetch url rq p \<Rightarrow> afterFetch this url rq p v w
      | AfterDisposed url cached \<Rightarrow>
          (case v of
             Fulfilled r \<Rightarrow>
               (case putInColdStorage this url r cached w of Inl err \<Rightarrow> w | Inr w1 \<Rightarrow> w1)
           | _ \<Rightarrow> w)
      | ColdSetSettled cached \<Rightarrow>
          (case v of
             Failed err \<Rightarrow>
               w\<lparr>entries := (entries w)(cached := (entries w cached)\<lparr>inColdStoarge := False\<rparr>)\<rparr>
           | _ \<Rightarrow> w))"

definition run_job :: "cache \<Rightarrow> job \<Rightarrow> world \<Rightarrow> world" where
  "run_job this j w =
     (case j of
        Resume k v \<Rightarrow> resume this k v w
      | ThenJob url p out \<Rightarrow> thenHandler url p out w
      | CatchJob url p out \<Rightarrow> catchHandler this url p out w)"

text \<open>
  What can happen next: a caller invokes \<^verbatim>\<open>getCached\<close>; the environment settles a
  promise it owns (a fetch, a cold-storage read or write); the first microtask of the
  queue runs; the clock advances.

  The queue is coarser than the engine's in two places, neither of which a statement
  below depends on: the \<^verbatim>\<open>.catch\<close> chained on a cold-storage promise (lines 85 and
  121) runs in the microtask of the continuation behind it, and the promise an
  \<^verbatim>\<open>async\<close> call returns to its caller settles in the microtask that ends the call.
\<close>

datatype event =
    Call cid key "request option" "callback option"
  | Settle pid pstate
  | Tick
  | Advance time

fun step :: "cache \<Rightarrow> world \<Rightarrow> event \<Rightarrow> world" where
  "step this w (Call i url request onMiss) = getCached this i url request onMiss w"
| "step this w (Settle p v) =
     (if p \<in> external w \<and> promises w p = Unsettled \<and> v \<noteq> Unsettled then settle p v w else w)"
| "step this w Tick =
     (case microtasks w of [] \<Rightarrow> w | j # js \<Rightarrow> run_job this j (w\<lparr>microtasks := js\<rparr>))"
| "step this w (Advance d) = (if 0 \<le> d then w\<lparr>now := now w + d\<rparr> else w)"

definition run :: "cache \<Rightarrow> event list \<Rightarrow> world \<Rightarrow> world" where
  "run this evs w = foldl (step this) w evs"

section \<open>Concrete objects\<close>

text \<open>A policy whose answers are constants, a class that builds it, and a world with
  nothing in it; they serve as the concrete inputs at which the theorems below are
  instantiated.\<close>

primcorec constant_policy :: "bool \<Rightarrow> time \<Rightarrow> bool \<Rightarrow> policy" where
  "constant_policy fresh t modified =
     CachePolicy (\<lambda>clock rq. fresh) (\<lambda>clock. t)
       (\<lambda>clock. [''content-type'' \<mapsto> ''text/plain''])
       (\<lambda>rq. [''if-none-match'' \<mapsto> ''v1''])
       (\<lambda>clock rq r. (constant_policy fresh t modified, modified))"

definition constant_class :: "bool \<Rightarrow> time \<Rightarrow> bool \<Rightarrow> policy_class" where
  "constant_class fresh t modified = (\<lambda>clock rq r. constant_policy fresh t modified)"

definition a_request :: request where
  "a_request = \<lparr>req_method = Some ''GET'', req_url = Some ''/a'', req_headers = Map.empty\<rparr>"

definition blank_entry :: entry where
  "blank_entry =
     \<lparr>cost = 0, temp = False, isError = False, policy = None, inColdStoarge = False,
      promise = 0\<rparr>"

text \<open>An empty cache at time 0 over a given heap of response objects.\<close>

definition init :: "(rref \<Rightarrow> response) \<Rightarrow> world" where
  "init heap =
     \<lparr>now = 0, storage = Map.empty, entries = (\<lambda>a. blank_entry), next_entry = 0,
      responses = heap, promises = (\<lambda>p. Unsettled), next_promise = 0, waiting = [],
      microtasks = [], fetchLog = [], coldGets = [], coldSets = [],
      results = Map.empty, jitters = []\<rparr>"

text \<open>A heap whose object 0 is a plain 200 response with headers, whose object 1 is a
  304 response, and whose other objects are 200 responses without headers.\<close>

definition a_heap :: "rref \<Rightarrow> response" where
  "a_heap r =
     (if r = 0 then \<lparr>status = 200, headers = Some [''etag'' \<mapsto> ''v1''], body = Buffer ''abc'', ttl = None\<rparr>
      else if r = 1 then \<lparr>status = 304, headers = Some Map.empty, body = NotBuffer, ttl = None\<rparr>
      else \<lparr>status = 200, headers = None, body = NotBuffer, ttl = None\<rparr>)"

text \<open>A cache built without options whose policies are fresh for a minute, and the
  world after one complete miss on key \<open>''k''\<close>: the fetch (promise 1) resolved to
  object 0, the handlers ran, and entry 1 is the stored entry with a policy.\<close>

definition fresh_cache :: cache where
  "fresh_cache = new_Cache (constant_class True 60000 False) no_options"

definition ready_world :: world where
  "ready_world =
     run fresh_cache
       [Call 0 ''k'' (Some a_request) (Some 7), Settle 1 (Fulfilled (Some 0)),
        Tick, Tick, Tick, Tick]
       (init a_heap)"

text \<open>A cache built without options whose policies give a time-to-live of zero, and
  the world in which its first call for \<open>''k''\<close> has fetched object 0 and the handler
  of line 55 is about to run.\<close>

definition zero_cache :: cache where
  "zero_cache = new_Cache (constant_class True 0 False) no_options"

definition fetched_world :: world where
  "fetched_world =
     run zero_cache
       [Call 0 ''k'' (Some a_request) (Some 7), Settle 1 (Fulfilled (Some 0)), Tick]
       (init a_heap)"

text \<open>The events of one call for \<open>''k''\<close> whose fetch resolves to object 2, a response
  without headers.\<close>

definition headerless_fetch :: "event list" where
  "headerless_fetch =
     [Call 0 ''k'' (Some a_request) (Some 7), Settle 1 (Fulfilled (Some 2)),
      Tick, Tick, Tick, Tick]"

text \<open>The same call when its fetch resolves to \<^verbatim>\<open>null\<close>.\<close>

definition null_fetch :: "event list" where
  "null_fetch =
     [Call 0 ''k'' (Some a_request) (Some 7), Settle 1 (Fulfilled None),
      Tick, Tick, Tick, Tick]"

text \<open>A cache with a cold storage whose policies always ask for revalidation and
  give a time-to-live of one minute, and the world after its first call for \<open>''k''\<close>
  has completed: the cold-storage read (promise 1) found nothing, the fetch (promise 2)
  resolved to object 0, and entry 1 is stored with that policy.\<close>

definition cold_stale_cache :: cache where
  "cold_stale_cache =
     new_Cache (constant_class False 60000 False) (no_options\<lparr>opt_coldStorage := True\<rparr>)"

definition stale_world :: world where
  "stale_world =
     run cold_stale_cache
       [Call 0 ''k'' (Some a_request) (Some 7), Settle 1 (Fulfilled None), Tick,
        Settle 2 (Fulfilled (Some 0)), Tick, Tick, Tick, Tick]
       (init a_heap)"

text \<open>The second call for \<open>''k''\<close> in that world, whose cold-storage read (promise 4)
  finds object 0.\<close>

definition cold_copy_found :: "event list" where
  "cold_copy_found =
     [Call 1 ''k'' (Some a_request) (Some 7), Tick, Settle 4 (Fulfilled (Some 0)),
      Tick, Tick, Tick, Tick]"

text \<open>The hit on entry 1 of that world: the call and the microtask that resumes it
  after \<^verbatim>\<open>await cached.promise\<close>.\<close>

definition demotion_hit :: "event list" where
  "demotion_hit = [Call 1 ''k'' (Some a_request) (Some 7), Tick]"

text \<open>The world after the first call of \<open>cold_stale_cache\<close> for \<open>''k''\<close> when its
  cold-storage read (promise 1) finds object 0: no fetch is made, and entry 1 is stored
  with the policy built from the copy, whose time-to-live is one minute.\<close>

definition cold_found_world :: world where
  "cold_found_world =
     run cold_stale_cache
       [Call 0 ''k'' (Some a_request) (Some 7), Settle 1 (Fulfilled (Some 0)),
        Tick, Tick, Tick, Tick]
       (init a_heap)"

subsection \<open>Scenarios with and without a cold storage\<close>

text \<open>
  When a cold storage is configured, \<^verbatim>\<open>_getResult\<close> first reads it: the promise
  allocated right after \<^verbatim>\<open>resultPromise\<close> is then the one of the read, and the fetch
  callback is only called once the read has been answered. \<open>cold_read\<close> is the answer
  of the environment to that read followed by the microtask that resumes the
  coordinator (nothing when there is no cold storage), and \<open>fetch_promise\<close> is the
  promise of the first fetch of a call whose \<^verbatim>\<open>resultPromise\<close> is \<open>p\<close>.
\<close>

definition cold_read :: "cache \<Rightarrow> pid \<Rightarrow> pstate \<Rightarrow> event list" where
  "cold_read this pc v = (if coldStorage this then [Settle pc v, Tick] else [])"

definition fetch_promise :: "cache \<Rightarrow> pid \<Rightarrow> pid" where
  "fetch_promise this p = (if coldStorage this then Suc (Suc p) else Suc p)"

text \<open>
  A call that finds an entry in need of revalidation stores the \<^verbatim>\<open>temp\<close> entry over it
  (line 79), so the store runs its dispose callback (lines 16 to 22) on the old entry:
  the first microtask after the call is \<^verbatim>\<open>_putInColdStorage\<close> for it, which writes
  to the cold storage when one is configured, the entry is not flagged and its
  time-to-live is at least an hour. That write takes the next promise, so the promise
  of the revalidation request, \<open>revalidation_promise\<close>, comes one later than
  \<open>fetch_promise\<close>. \<open>revalidation\<close> is such a call, that microtask, and the answer to
  the cold-storage read of the coordinator.
\<close>

definition demoted_on_dispose :: "cache \<Rightarrow> eref \<Rightarrow> world \<Rightarrow> bool" where
  "demoted_on_dispose this c w \<longleftrightarrow>
     coldStorage this \<and> \<not> inColdStoarge (entries w c) \<and>
     (case policy (entries w c) of
        None \<Rightarrow> False
      | Some pol \<Rightarrow> 3600000 \<le> timeToLive pol (now w))"

definition revalidation_promise :: "cache \<Rightarrow> eref \<Rightarrow> world \<Rightarrow> pid" where
  "revalidation_promise this c w =
     (if demoted_on_dispose this c w then Suc (Suc (Suc (next_promise w)))
      else fetch_promise this (next_promise w))"

definition revalidation ::
  "cache \<Rightarrow> cid \<Rightarrow> key \<Rightarrow> request \<Rightarrow> callback \<Rightarrow> pstate \<Rightarrow> world \<Rightarrow> event list" where
  "revalidation this i url rq cb coldAnswer w =
     Call i url (Some rq) (Some cb) # Tick # cold_read this (Suc (next_promise w)) coldAnswer"

text \<open>A cache with a cold storage whose policies always ask for revalidation, give a
  time-to-live of two hours and report every revalidated response as modified; and the
  world after its first call for \<open>''k''\<close> has completed: the cold-storage read
  (promise 1) found nothing, the fetch (promise 2) resolved to object 0, and entry 1 is
  stored with that policy.\<close>

definition cold_changed_cache :: cache where
  "cold_changed_cache =
     new_Cache (constant_class False 7200000 True) (no_options\<lparr>opt_coldStorage := True\<rparr>)"

definition cold_changed_world :: world where
  "cold_changed_world =
     run cold_changed_cache
       [Call 0 ''k'' (Some a_request) (Some 7), Settle 1 (Fulfilled None), Tick,
        Settle 2 (Fulfilled (Some 0)), Tick, Tick, Tick, Tick]
       (init a_heap)"

text \<open>A cache with a cold storage whose policies are fresh and give a time-to-live of
  two hours, and the world after its first call for \<open>''k''\<close> has completed in the same
  way: entry 1 is stored with that policy and is not marked as demoted.\<close>

definition cold_long_cache :: cache where
  "cold_long_cache =
     new_Cache (constant_class True 7200000 False) (no_options\<lparr>opt_coldStorage := True\<rparr>)"

definition long_world :: world where
  "long_world =
     run cold_long_cache
       [Call 0 ''k'' (Some a_request) (Some 7), Settle 1 (Fulfilled None), Tick,
        Settle 2 (Fulfilled (Some 0)), Tick, Tick, Tick, Tick]
       (init a_heap)"

text \<open>Three worlds on the way: \<open>long_world\<close> when a second call has found entry 1 and
  waits for its promise (line 42); the empty world of \<open>cold_stale_cache\<close> when the
  cold-storage read of the first call has been answered with object 0; and that world
  one microtask later, when the coordinator has returned.\<close>

definition hit_pending :: world where
  "hit_pending = run cold_long_cache [Call 1 ''k'' (Some a_request) (Some 7)] long_world"

definition cold_read_done :: world where
  "cold_read_done =
     run cold_stale_cache
       [Call 0 ''k'' (Some a_request) (Some 7), Settle 1 (Fulfilled (Some 0))]
       (init a_heap)"

definition cold_result_queued :: world where
  "cold_result_queued = step cold_stale_cache cold_read_done Tick"


subsection \<open>Well-formed worlds\<close>

text \<open>No continuation waits on a promise that does not exist yet.\<close>

definition fresh_ok :: "world \<Rightarrow> bool" where
  "fresh_ok w = list_all (\<lambda>(q, k). q < next_promise w) (waiting w)"

subsection \<open>Concurrent callers\<close>

text \<open>Calls of \<^verbatim>\<open>getCached\<close> for one key issued one after the other with no microtask
  in between, each with its own request and callback; and the continuations such
  callers leave behind when they find a \<^verbatim>\<open>temp\<close> entry whose promise is \<open>p\<close>
  (line 38).\<close>

definition concurrent_calls :: "key \<Rightarrow> (cid \<times> request \<times> callback) list \<Rightarrow> event list" where
  "concurrent_calls url cs = map (\<lambda>(i, rq, cb). Call i url (Some rq) (Some cb)) cs"

definition waiters :: "key \<Rightarrow> pid \<Rightarrow> (cid \<times> request \<times> callback) list \<Rightarrow> (pid \<times> cont) list" where
  "waiters url p cs = map (\<lambda>(i, rq, cb). (p, AfterTemp i url rq cb)) cs"




subsection \<open>The cold-storage flag across a step\<close>

text \<open>Between two worlds \<open>w\<close> and \<open>w'\<close>: the flag of entry \<open>c\<close> has been raised; a
  write to the cold storage has been issued with a time-to-live of at least an hour,
  its promise is unsettled, and the callback that rolls the flag of \<open>c\<close> back is
  registered on it.\<close>

definition raised :: "world \<Rightarrow> world \<Rightarrow> eref \<Rightarrow> bool" where
  "raised w w' c \<longleftrightarrow> \<not> inColdStoarge (entries w c) \<and> inColdStoarge (entries w' c)"

definition write_issued :: "world \<Rightarrow> world \<Rightarrow> eref \<Rightarrow> bool" where
  "write_issued w w' c \<longleftrightarrow>
     (\<exists>url r t p. coldSets w' = coldSets w @ [(url, r, t, p)] \<and> 3600000 \<le> t \<and>
        promises w' p = Unsettled \<and> (p, ColdSetSettled c) \<in> set (waiting w'))"

text \<open>The queued runs of the handler of line 55 on a coordinator result that is marked
  \<^verbatim>\<open>inColdStoarge: true\<close>.\<close>

definition cold_results :: "world \<Rightarrow> job set" where
  "cold_results w =
     {j \<in> set (microtasks w). \<exists>url p r pol. j = ThenJob url p (Inr (r, pol, True))}"

section \<open>Unfolding the model\<close>

lemmas model_defs =
  run_def new_Cache_def no_options_def js_or_def init_def a_heap_def a_request_def
  constant_class_def getCached_def getCached_miss_def getResult_def getResult_fetch_def
  storage_get_def storage_set_def storage_del_def dispose_def await_def settle_def
  new_promise_def onCacheMissCallback_def coldStorage_get_def coldStorage_set_def
  external_def run_job_def resume_def afterFetch_def afterTemp_def afterHit_def
  afterColdGet_def afterRevalidation_def afterSecondAwait_def thenHandler_def
  catchHandler_def getResult_done_def deliver_def set_headers_def set_header_def
  set_ttl_def random_2000_def putInColdStorage_def Let_def

text \<open>The store lookup reads the clock and the store only.\<close>

lemma storage_get_frame [simp]:
  "storage_get (w\<lparr>entries := e\<rparr>) = storage_get w"
  "storage_get (w\<lparr>next_entry := ne\<rparr>) = storage_get w"
  "storage_get (w\<lparr>responses := rs\<rparr>) = storage_get w"
  "storage_get (w\<lparr>promises := ps\<rparr>) = storage_get w"
  "storage_get (w\<lparr>next_promise := np\<rparr>) = storage_get w"
  "storage_get (w\<lparr>waiting := ws\<rparr>) = storage_get w"
  "storage_get (w\<lparr>microtasks := ms\<rparr>) = storage_get w"
  "storage_get (w\<lparr>fetchLog := fl\<rparr>) = storage_get w"
  "storage_get (w\<lparr>coldGets := cg\<rparr>) = storage_get w"
  "storage_get (w\<lparr>coldSets := cs\<rparr>) = storage_get w"
  "storage_get (w\<lparr>results := rr\<rparr>) = storage_get w"
  "storage_get (w\<lparr>jitters := js\<rparr>) = storage_get w"
  by (auto simp: storage_get_def fun_eq_iff split: option.splits)

lemma storage_get_upd [simp]:
  "storage_get (w\<lparr>storage := s\<rparr>) url =
     (case s url of None \<Rightarrow> None
      | Some (c, stored, maxAge) \<Rightarrow> if now w - stored > maxAge then None else Some c)"
  by (simp add: storage_get_def split: option.splits)

lemma storage_get_now [simp]:
  "storage_get (w\<lparr>now := t\<rparr>) url =
     (case storage w url of None \<Rightarrow> None
      | Some (c, stored, maxAge) \<Rightarrow> if t - stored > maxAge then None else Some c)"
  by (simp add: storage_get_def split: option.splits)



lemma run_append: "run this (es @ fs) w = run this fs (run this es w)"
  by (simp add: run_def)

lemma init_facts:
  "storage_get (init h) url = None" "microtasks (init h) = []" "fresh_ok (init h)"
  by (simp_all add: init_def storage_get_def fresh_ok_def)

lemma filter_waiters [simp]:
  "filter (\<lambda>(q, k). q = n) (waiters url p cs) = (if n = p then waiters url p cs else [])"
  "filter (\<lambda>(q, k). q \<noteq> n) (waiters url p cs) = (if n = p then [] else waiters url p cs)"
  by (induction cs) (auto simp: waiters_def)

lemma fresh_filter:
  assumes "fresh_ok w" "next_promise w \<le> n"
  shows "filter (\<lambda>(q, k). q = n) (waiting w) = []"
    and "filter (\<lambda>(q, k). q \<noteq> n) (waiting w) = waiting w"
  using assms by (auto simp: fresh_ok_def list_all_iff filter_empty_conv filter_id_conv)

text \<open>Storing over nothing, over a \<^verbatim>\<open>temp\<close> entry or over an entry without a policy
  disposes of nothing.\<close>

lemma storage_set_absent:
  assumes "storage_get w url = None"
  shows "storage_set url e m w =
     w\<lparr>entries := (entries w)(next_entry w := e), next_entry := Suc (next_entry w),
       storage := (storage w)(url \<mapsto> (next_entry w, now w, m))\<rparr>"
  using assms by (simp add: storage_set_def Let_def)

lemma storage_set_plain:
  assumes "case storage w url of None \<Rightarrow> True
           | Some (c, stored, maxAge) \<Rightarrow> temp (entries w c) \<or> policy (entries w c) = None"
  shows "storage_set url e m w =
     w\<lparr>entries := (entries w)(next_entry w := e), next_entry := Suc (next_entry w),
       storage := (storage w)(url \<mapsto> (next_entry w, now w, m))\<rparr>"
  using assms
  by (cases "storage_get w url")
     (auto simp: storage_set_def storage_get_def dispose_def Let_def
           split: option.splits if_splits)

text \<open>The rules for running events on a world that is not concrete.\<close>

lemmas exec =
  run_def getCached_def getCached_miss_def getResult_def getResult_fetch_def
  new_promise_def onCacheMissCallback_def coldStorage_get_def coldStorage_set_def await_def
  storage_set_absent storage_set_plain external_def settle_def run_job_def resume_def
  afterFetch_def getResult_done_def afterColdGet_def afterRevalidation_def
  afterSecondAwait_def afterTemp_def thenHandler_def catchHandler_def deliver_def
  cold_read_def fetch_promise_def headers_only_def Let_def

text \<open>The rules for running events on a concrete world.\<close>

lemmas concrete =
  fresh_cache_def zero_cache_def cold_stale_cache_def cold_long_cache_def cold_changed_cache_def
  cold_read_def fetch_promise_def concurrent_calls_def waiters_def headers_only_def
  model_defs

section \<open>Constructor defaults\<close>

text \<open>
  C9, as the spec states it: without options the maximum total store cost is
  500 * 10^6. The constructor passes \<^verbatim>\<open>500*1024*1024\<close> to the store, so the
  stated value is not the one the code uses.
\<close>

theorem C9_size_default_counterexample:
  "lru_max (new_Cache (constant_class True 0 False) no_options) \<noteq> 500 * 10 ^ 6"
  by (simp add: new_Cache_def no_options_def js_or_def)

text \<open>
  C9, amended: without options the defaults are busyTimeout = 2000 ms,
  errorTimeout = 200 ms, maximum total store cost = 500 * 1024 * 1024 = 524288000, and
  maxAge = 24 hours (86400000 ms).
\<close>

theorem C9_constructor_defaults:
  "busyTimeout (new_Cache d no_options) = 2000 \<and>
   errorTimeout (new_Cache d no_options) = 200 \<and>
   lru_max (new_Cache d no_options) = 524288000 \<and>
   lru_maxAge (new_Cache d no_options) = 24 * (60 * 60 * 1000)"
  by (simp add: new_Cache_def no_options_def js_or_def)

section \<open>Cache hits\<close>

lemma hit_call:
  assumes "url \<noteq> []" "storage_get w url = Some c" "\<not> temp (entries w c)"
    "policy (entries w c) = Some pol" "satisfiesWithoutRevalidation pol (now w) rq"
    "promises w (promise (entries w c)) = Fulfilled v" "microtasks w = []"
  shows "getCached this i url (Some rq) (Some cb) w =
         w\<lparr>microtasks := [Resume (AfterHit i url c) (Fulfilled v)]\<rparr>"
  using assms by (simp add: getCached_def await_def)

text \<open>A demotion attempt touches the entry heap, the promise table and the log of
  cold-storage writes, nothing else.\<close>

lemma putInColdStorage_frame:
  assumes "policy (entries w c) = Some pol"
  shows "\<exists>w1. putInColdStorage this url r c w = Inr w1 \<and> now w1 = now w \<and>
           responses w1 = responses w \<and> fetchLog w1 = fetchLog w \<and>
           results w1 = results w \<and> storage w1 = storage w \<and>
           microtasks w1 = microtasks w"
  using assms
  by (simp add: putInColdStorage_def Let_def coldStorage_set_def new_promise_def await_def)

lemma hit_run:
  assumes "url \<noteq> []" "storage_get w url = Some c" "\<not> temp (entries w c)"
    "policy (entries w c) = Some pol" "satisfiesWithoutRevalidation pol (now w) rq"
    "promises w (promise (entries w c)) = Fulfilled (Some r)" "microtasks w = []"
  shows "\<exists>w1. now w1 = now w \<and> responses w1 = responses w \<and> fetchLog w1 = fetchLog w \<and>
           results w1 = results w \<and>
           run this [Call i url (Some rq) (Some cb), Tick] w =
             deliver i (Inr (Some r))
               (set_ttl r (timeToLive pol (now w1))
                  (set_header r ''im2-cache'' ''hit''
                     (set_headers r (responseHeaders pol (now w1)) w1)))"
proof -
  let ?w0 = "w\<lparr>microtasks := []\<rparr>"
  have pol0: "policy (entries ?w0 c) = Some pol" using assms by simp
  obtain w1 where w1: "putInColdStorage this url (Some r) c ?w0 = Inr w1" "now w1 = now ?w0"
     "responses w1 = responses ?w0" "fetchLog w1 = fetchLog ?w0" "results w1 = results ?w0"
    using putInColdStorage_frame[OF pol0, of this url "Some r"] by auto
  have "run this [Call i url (Some rq) (Some cb), Tick] w =
        deliver i (Inr (Some r))
          (set_ttl r (timeToLive pol (now w1))
             (set_header r ''im2-cache'' ''hit'' (set_headers r (responseHeaders pol (now w1)) w1)))"
    using assms w1 by (simp add: run_def hit_call run_job_def resume_def afterHit_def)
  then show ?thesis using w1 by auto
qed

lemma ready_world_facts:
  "storage_get ready_world ''k'' = Some 1"
  "\<not> temp (entries ready_world 1)"
  "policy (entries ready_world 1) = Some (constant_policy True 60000 False)"
  "promises ready_world (promise (entries ready_world 1)) = Fulfilled (Some 0)"
  "microtasks ready_world = []"
  "fetchLog ready_world = [(7, Map.empty, 1)]"
  "now ready_world = 0"
  by (simp_all add: ready_world_def fresh_cache_def model_defs)

text \<open>
  C3: for every stored entry with a policy (not \<^verbatim>\<open>temp\<close>) whose policy reports
  \<^verbatim>\<open>satisfiesWithoutRevalidation(request)\<close>, and whose promise holds the stored response
  \<open>r\<close>, a call of \<^verbatim>\<open>getCached\<close> returns \<open>r\<close>, the fetch callback is not invoked
  (the log of callback invocations is unchanged), and the headers of \<open>r\<close> are the
  policy's \<^verbatim>\<open>responseHeaders()\<close> with \<^verbatim>\<open>im2-cache\<close> set to \<^verbatim>\<open>hit\<close>.
\<close>

theorem C3_hit_serves_stored_response:
  assumes "url \<noteq> []"
    and "storage_get w url = Some c"
    and "\<not> temp (entries w c)"
    and "policy (entries w c) = Some pol"
    and "satisfiesWithoutRevalidation pol (now w) rq"
    and "promises w (promise (entries w c)) = Fulfilled (Some r)"
    and "microtasks w = []"
  shows "results (run this [Call i url (Some rq) (Some cb), Tick] w) i = Some (Inr (Some r)) \<and>
         fetchLog (run this [Call i url (Some rq) (Some cb), Tick] w) = fetchLog w \<and>
         headers (responses (run this [Call i url (Some rq) (Some cb), Tick] w) r) =
           Some ((responseHeaders pol (now w))(''im2-cache'' \<mapsto> ''hit''))"
proof -
  obtain w1 where "now w1 = now w" "responses w1 = responses w" "fetchLog w1 = fetchLog w"
    "run this [Call i url (Some rq) (Some cb), Tick] w =
       deliver i (Inr (Some r))
         (set_ttl r (timeToLive pol (now w1))
            (set_header r ''im2-cache'' ''hit''
               (set_headers r (responseHeaders pol (now w1)) w1)))"
    using hit_run[OF assms] by blast
  then show ?thesis
    by (simp add: deliver_def set_ttl_def set_header_def set_headers_def)
qed

theorem C3_hit_serves_stored_response_witness:
  "results (run fresh_cache [Call 5 ''k'' (Some a_request) (Some 7), Tick] ready_world) 5
     = Some (Inr (Some 0)) \<and>
   fetchLog (run fresh_cache [Call 5 ''k'' (Some a_request) (Some 7), Tick] ready_world)
     = [(7, Map.empty, 1)] \<and>
   headers (responses
       (run fresh_cache [Call 5 ''k'' (Some a_request) (Some 7), Tick] ready_world) 0)
     = Some [''content-type'' \<mapsto> ''text/plain'', ''im2-cache'' \<mapsto> ''hit'']"
proof -
  have fresh: "satisfiesWithoutRevalidation (constant_policy True 60000 False)
                 (now ready_world) a_request"
    by simp
  have url: "''k'' \<noteq> []" by simp
  show ?thesis
    using C3_hit_serves_stored_response [OF url ready_world_facts(1-3) fresh
        ready_world_facts(4,5), of fresh_cache 5 7]
    by (simp add: ready_world_facts)
qed

text \<open>
  C10: on every such hit \<^verbatim>\<open>getCached\<close> changes the stored response object in place
  and returns that same object: afterwards the object \<open>r\<close> differs from before only
  in its \<^verbatim>\<open>headers\<close>, now the policy's \<^verbatim>\<open>responseHeaders()\<close> plus
  \<^verbatim>\<open>im2-cache: hit\<close>, and in its \<^verbatim>\<open>ttl\<close>, now the policy's \<^verbatim>\<open>timeToLive()\<close> at the
  time of the call. No other response object changes, and every other call keeps the
  result it had, so a caller that was given \<open>r\<close> earlier reads the changed object.
\<close>

theorem C10_hit_mutates_shared_response:
  assumes "url \<noteq> []"
    and "storage_get w url = Some c"
    and "\<not> temp (entries w c)"
    and "policy (entries w c) = Some pol"
    and "satisfiesWithoutRevalidation pol (now w) rq"
    and "promises w (promise (entries w c)) = Fulfilled (Some r)"
    and "microtasks w = []"
  shows "responses (run this [Call i url (Some rq) (Some cb), Tick] w) =
           (responses w)(r := (responses w r)
              \<lparr>headers := Some ((responseHeaders pol (now w))(''im2-cache'' \<mapsto> ''hit'')),
               ttl := Some (timeToLive pol (now w))\<rparr>) \<and>
         results (run this [Call i url (Some rq) (Some cb), Tick] w) =
           (results w)(i \<mapsto> Inr (Some r))"
proof -
  obtain w1 where "now w1 = now w" "responses w1 = responses w" "results w1 = results w"
    "run this [Call i url (Some rq) (Some cb), Tick] w =
       deliver i (Inr (Some r))
         (set_ttl r (timeToLive pol (now w1))
            (set_header r ''im2-cache'' ''hit''
               (set_headers r (responseHeaders pol (now w1)) w1)))"
    using hit_run[OF assms] by blast
  then show ?thesis
    by (simp add: deliver_def set_ttl_def set_header_def set_headers_def)
qed

theorem C10_hit_mutates_shared_response_witness:
  "ttl (responses ready_world 0) = None \<and>
   results ready_world 0 = Some (Inr (Some 0)) \<and>
   results (run fresh_cache [Call 5 ''k'' (Some a_request) (Some 7), Tick] ready_world) 0
     = Some (Inr (Some 0)) \<and>
   results (run fresh_cache [Call 5 ''k'' (Some a_request) (Some 7), Tick] ready_world) 5
     = Some (Inr (Some 0)) \<and>
   ttl (responses
       (run fresh_cache [Call 5 ''k'' (Some a_request) (Some 7), Tick] ready_world) 0)
     = Some 60000"
proof -
  have fresh: "satisfiesWithoutRevalidation (constant_policy True 60000 False)
                 (now ready_world) a_request"
    by simp
  have url: "''k'' \<noteq> []" by simp
  have before: "ttl (responses ready_world 0) = None"
    "results ready_world 0 = Some (Inr (Some 0))"
    by (simp_all add: ready_world_def fresh_cache_def model_defs)
  show ?thesis
    using C10_hit_mutates_shared_response [OF url ready_world_facts(1-3) fresh
        ready_world_facts(4,5), of fresh_cache 5 7] before
    by simp
qed

section \<open>The handlers of the result promise\<close>

lemma fetched_world_facts:
  "microtasks fetched_world =
     [ThenJob ''k'' 0 (Inr (Some 0, Some (constant_policy True 0 False), False))]"
  "waiting fetched_world = [(0, ReturnTo 0)]"
  "headers (responses fetched_world 0) \<noteq> None"
  "now fetched_world = 0"
  "storage_get fetched_world ''k'' = Some 0"
  by (simp_all add: fetched_world_def zero_cache_def model_defs)

text \<open>
  C5: when the coordinator has produced a response \<open>r\<close> with headers and a policy
  whose time-to-live is zero, the handler of line 55 deletes the entry of the key (the
  store holds none afterwards), sets the headers of \<open>r\<close> to the policy's
  \<^verbatim>\<open>responseHeaders()\<close> with \<^verbatim>\<open>im2-cache: no-cache\<close>, and the call still returns
  \<open>r\<close> to its caller.
\<close>

theorem C5_zero_ttl_not_stored:
  assumes "microtasks w = [ThenJob url p (Inr (Some r, Some pol, inCold))]"
    and "waiting w = [(p, ReturnTo i)]"
    and "headers (responses w r) \<noteq> None"
    and "timeToLive pol (now w) = 0"
  shows "storage_get (run this [Tick, Tick, Tick] w) url = None \<and>
         results (run this [Tick, Tick, Tick] w) i = Some (Inr (Some r)) \<and>
         headers (responses (run this [Tick, Tick, Tick] w) r) =
           Some ((responseHeaders pol (now w))(''im2-cache'' \<mapsto> ''no-cache''))"
  using assms
  by (simp add: run_def run_job_def thenHandler_def catchHandler_def storage_del_def
      set_headers_def set_header_def settle_def resume_def deliver_def Let_def)

theorem C5_zero_ttl_not_stored_witness:
  "storage_get fetched_world ''k'' = Some 0 \<and>
   storage_get (run zero_cache [Tick, Tick, Tick] fetched_world) ''k'' = None \<and>
   results (run zero_cache [Tick, Tick, Tick] fetched_world) 0 = Some (Inr (Some 0)) \<and>
   headers (responses (run zero_cache [Tick, Tick, Tick] fetched_world) 0) =
     Some [''content-type'' \<mapsto> ''text/plain'', ''im2-cache'' \<mapsto> ''no-cache'']"
proof -
  have ttl: "timeToLive (constant_policy True 0 False) (now fetched_world) = 0" by simp
  show ?thesis
    using C5_zero_ttl_not_stored [OF fetched_world_facts(1-3) ttl, of zero_cache]
    by (simp add: fetched_world_facts)
qed

text \<open>
  C2 (a defect of the code): the fetch of the only call for \<open>''k''\<close> resolves to a
  response without headers. The handler of line 55 deletes the entry and throws
  \<^verbatim>\<open>Empty result\<close>, but the \<^verbatim>\<open>.catch\<close> of line 72 is chained behind it, catches that
  error too and stores an error entry for the key; when the call has settled the store
  holds entry 1, an error entry kept for \<^verbatim>\<open>errorTimeout\<close> = 200 ms. When the fetch
  resolves to \<^verbatim>\<open>null\<close> the call does not get that far: \<^verbatim>\<open>res.status\<close> on line 108
  is a \<^verbatim>\<open>TypeError\<close>, which is cached in the same way.
\<close>

theorem C2_empty_result_is_cached_as_error:
  "storage_get (init a_heap) ''k'' = None \<and>
   headers (a_heap 2) = None \<and>
   results (run fresh_cache headerless_fetch (init a_heap)) 0 = Some (Inl (EmptyResult ''k'')) \<and>
   storage (run fresh_cache headerless_fetch (init a_heap)) ''k'' = Some (1, 0, 200) \<and>
   storage_get (run fresh_cache headerless_fetch (init a_heap)) ''k'' = Some 1 \<and>
   entries (run fresh_cache headerless_fetch (init a_heap)) 1 =
     \<lparr>cost = 30000, temp = False, isError = True, policy = None, inColdStoarge = False,
      promise = 0\<rparr> \<and>
   results (run fresh_cache null_fetch (init a_heap)) 0 = Some (Inl TypeError) \<and>
   storage_get (run fresh_cache null_fetch (init a_heap)) ''k'' = Some 1 \<and>
   isError (entries (run fresh_cache null_fetch (init a_heap)) 1)"
  by (simp add: headerless_fetch_def null_fetch_def concrete)

section \<open>The coordinator without a usable entry\<close>

text \<open>
  C8: a call for a key without entry, with no cold storage or with a cold-storage read
  that finds nothing (or fails), makes the coordinator call the fetch callback once with
  an empty header map; when that fetch resolves to a response with status 304 the call
  fails with \<^verbatim>\<open>Unexpected revalidation\<close> and no further fetch is made.
\<close>

theorem C8_unexpected_revalidation:
  assumes "url \<noteq> []" "storage_get w url = None" "microtasks w = []" "fresh_ok w"
    and "status (responses w r) = 304"
    and "coldAnswer = Fulfilled None \<or> coldAnswer = Failed e"
  shows "fetchLog (run this (Call i url (Some rq) (Some cb) #
                     cold_read this (Suc (next_promise w)) coldAnswer) w) =
           fetchLog w @ [(cb, Map.empty, fetch_promise this (next_promise w))] \<and>
         results (run this (Call i url (Some rq) (Some cb) #
                     cold_read this (Suc (next_promise w)) coldAnswer @
                     [Settle (fetch_promise this (next_promise w)) (Fulfilled (Some r)),
                      Tick, Tick, Tick, Tick]) w) i = Some (Inl UnexpectedRevalidation) \<and>
         fetchLog (run this (Call i url (Some rq) (Some cb) #
                     cold_read this (Suc (next_promise w)) coldAnswer @
                     [Settle (fetch_promise this (next_promise w)) (Fulfilled (Some r)),
                      Tick, Tick, Tick, Tick]) w) =
           fetchLog w @ [(cb, Map.empty, fetch_promise this (next_promise w))]"
proof -
  note ff = assms(4) fresh_filter
  show ?thesis
  proof (cases "coldStorage this")
    case False
    with assms(1-5) show ?thesis
      by (simp add: exec ff)
  next
    case True
    from assms(6) show ?thesis
    proof (elim disjE)
      assume "coldAnswer = Fulfilled None"
      with True assms(1-5) show ?thesis
        by (simp add: exec ff)
    next
      assume "coldAnswer = Failed e"
      with True assms(1-5) show ?thesis
        by (simp add: exec ff)
    qed
  qed
qed

theorem C8_unexpected_revalidation_witness:
  "fetchLog (run cold_stale_cache
       [Call 0 ''k'' (Some a_request) (Some 7), Settle 1 (Failed (Rejection ''down'')), Tick]
       (init a_heap)) = [(7, Map.empty, 2)] \<and>
   results (run cold_stale_cache
       [Call 0 ''k'' (Some a_request) (Some 7), Settle 1 (Failed (Rejection ''down'')), Tick,
        Settle 2 (Fulfilled (Some 1)), Tick, Tick, Tick, Tick]
       (init a_heap)) 0 = Some (Inl UnexpectedRevalidation)"
proof -
  have url: "''k'' \<noteq> []" by simp
  have st: "status (responses (init a_heap) 1) = 304" by (simp add: init_def a_heap_def)
  have ans: "Failed (Rejection ''down'') = Fulfilled None \<or>
             Failed (Rejection ''down'') = Failed (Rejection ''down'')" by simp
  show ?thesis
    using C8_unexpected_revalidation [OF url init_facts(1-3) st ans, of cold_stale_cache 0 a_request 7]
    by (simp add: concrete)
qed

section \<open>Revalidation\<close>

lemma stale_world_facts:
  "storage_get stale_world ''k'' = Some 1"
  "\<not> temp (entries stale_world 1)"
  "policy (entries stale_world 1) = Some (constant_policy False 60000 False)"
  "\<not> isError (entries stale_world 1)"
  "\<not> satisfiesWithoutRevalidation (constant_policy False 60000 False) (now stale_world) a_request"
  "promises stale_world (promise (entries stale_world 1)) = Fulfilled (Some 0)"
  "promise (entries stale_world 1) < next_promise stale_world"
  "1 < next_entry stale_world"
  "microtasks stale_world = []"
  "fresh_ok stale_world"
  "fetchLog stale_world = [(7, Map.empty, 2)]"
  "now stale_world = 0"
  by (simp_all add: stale_world_def fresh_ok_def concrete)

lemma cold_changed_world_facts:
  "storage_get cold_changed_world ''k'' = Some 1"
  "\<not> temp (entries cold_changed_world 1)"
  "policy (entries cold_changed_world 1) = Some (constant_policy False 7200000 True)"
  "\<not> isError (entries cold_changed_world 1)"
  "\<not> satisfiesWithoutRevalidation (constant_policy False 7200000 True)
       (now cold_changed_world) a_request"
  "promises cold_changed_world (promise (entries cold_changed_world 1)) = Fulfilled (Some 0)"
  "promise (entries cold_changed_world 1) < next_promise cold_changed_world"
  "1 < next_entry cold_changed_world"
  "microtasks cold_changed_world = []"
  "fresh_ok cold_changed_world"
  "fetchLog cold_changed_world = [(7, Map.empty, 2)]"
  by (simp_all add: cold_changed_world_def fresh_ok_def concrete)


text \<open>
  C4, as stated, for every entry with a policy that requires revalidation: in
  \<open>stale_world\<close> entry 1 of \<open>''k''\<close> is such an entry, yet the second call, whose
  cold-storage read finds a copy, returns that copy and never calls the fetch callback:
  the log of callback invocations still holds only the fetch of the first call.
\<close>

theorem C4_cold_copy_skips_revalidation_counterexample:
  "storage_get stale_world ''k'' = Some 1 \<and>
   \<not> temp (entries stale_world 1) \<and> \<not> isError (entries stale_world 1) \<and>
   policy (entries stale_world 1) = Some (constant_policy False 60000 False) \<and>
   \<not> satisfiesWithoutRevalidation (constant_policy False 60000 False) (now stale_world) a_request \<and>
   fetchLog stale_world = [(7, Map.empty, 2)] \<and>
   fetchLog (run cold_stale_cache cold_copy_found stale_world) = [(7, Map.empty, 2)] \<and>
   results (run cold_stale_cache cold_copy_found stale_world) 1 = Some (Inr (Some 0))"
  by (simp add: stale_world_facts) (simp add: stale_world_def cold_copy_found_def concrete)


text \<open>Storing over a live entry that has a policy runs the dispose callback, which
  waits for the promise of the entry.\<close>

lemma storage_set_live:
  assumes "storage_get w url = Some c" "\<not> temp (entries w c)" "policy (entries w c) = Some pol"
  shows "storage_set url e m w =
     (let w1 = await (promise (entries w c)) (AfterDisposed url c) w
      in w1\<lparr>entries := (entries w1)(next_entry w1 := e), next_entry := Suc (next_entry w1),
            storage := (storage w1)(url \<mapsto> (next_entry w1, now w1, m))\<rparr>)"
  using assms by (simp add: storage_set_def dispose_def Let_def)

lemmas reval_defs = revalidation_def revalidation_promise_def demoted_on_dispose_def
    storage_set_live putInColdStorage_def

text \<open>The draw of \<^verbatim>\<open>Math.random()\<close> changes nothing but the list of future draws; and
  once the coordinator has returned a usable response over a \<^verbatim>\<open>temp\<close> entry, the two
  handlers and the return to the caller deliver it without another fetch.\<close>

lemma random_2000_frame:
  "now (snd (random_2000 w)) = now w"
  "storage (snd (random_2000 w)) = storage w"
  "entries (snd (random_2000 w)) = entries w"
  "next_entry (snd (random_2000 w)) = next_entry w"
  "responses (snd (random_2000 w)) = responses w"
  "promises (snd (random_2000 w)) = promises w"
  "next_promise (snd (random_2000 w)) = next_promise w"
  "waiting (snd (random_2000 w)) = waiting w"
  "microtasks (snd (random_2000 w)) = microtasks w"
  "fetchLog (snd (random_2000 w)) = fetchLog w"
  "results (snd (random_2000 w)) = results w"
  by (simp_all add: random_2000_def split: list.splits)

lemma handlers_return:
  assumes "microtasks w = [ThenJob url p (Inr (Some r, Some pol, inCold))]"
    and "headers (responses w r) \<noteq> None"
    and "filter (\<lambda>(q, k). q = p) (waiting w) = [(p, ReturnTo i)]"
    and "storage w url = Some (a, since, maxAge)" "temp (entries w a)"
  shows "results (run this [Tick, Tick, Tick] w) i = Some (Inr (Some r)) \<and>
         fetchLog (run this [Tick, Tick, Tick] w) = fetchLog w"
proof (cases "timeToLive pol (now w) = 0")
  case True
  with assms show ?thesis
    by (simp add: run_def run_job_def thenHandler_def catchHandler_def storage_del_def
        set_headers_def set_header_def settle_def resume_def deliver_def Let_def)
next
  case False
  with assms show ?thesis
    by (simp add: run_def run_job_def thenHandler_def catchHandler_def storage_set_plain
        set_headers_def set_header_def settle_def resume_def deliver_def Let_def split_beta
        random_2000_frame)
qed

text \<open>The run of a call that revalidates, up to the point where the coordinator
  returns: what the theorem below needs to know of the world it leaves.\<close>

lemma revalidation_first_fetch:
  assumes "url \<noteq> []" "storage_get w url = Some c" "\<not> temp (entries w c)"
    and "policy (entries w c) = Some pol" "\<not> isError (entries w c)"
    and "\<not> satisfiesWithoutRevalidation pol (now w) rq"
    and "promises w (promise (entries w c)) = Fulfilled stored"
    and "promise (entries w c) < next_promise w" "c < next_entry w"
    and "microtasks w = []" "fresh_ok w"
    and "coldAnswer = Fulfilled None \<or> coldAnswer = Failed e"
  shows "fetchLog (run this (revalidation this i url rq cb coldAnswer w) w) =
           fetchLog w @ [(cb, revalidationHeaders pol rq, revalidation_promise this c w)]"
proof -
  note ff = assms(11) fresh_filter
  note a = assms(1-10) 
  have ne: "c \<noteq> next_entry w" "next_entry w \<noteq> c" using assms(9) by auto
  consider (plain) "\<not> coldStorage this"
    | (flagged) "coldStorage this" "inColdStoarge (entries w c)"
    | (short) "coldStorage this" "\<not> inColdStoarge (entries w c)"
        "timeToLive pol (now w) < 3600000"
    | (long) "coldStorage this" "\<not> inColdStoarge (entries w c)"
        "3600000 \<le> timeToLive pol (now w)"
    by linarith
  then show ?thesis
  proof cases
    case plain
    with a ne show ?thesis
      by (simp add: reval_defs exec ff)
  next
    case flagged
    from assms(12) show ?thesis
    proof (elim disjE)
      assume "coldAnswer = Fulfilled None"
      with flagged a ne show ?thesis
        by (simp add: reval_defs exec ff)
    next
      assume "coldAnswer = Failed e"
      with flagged a ne show ?thesis
        by (simp add: reval_defs exec ff)
    qed
  next
    case short
    from assms(12) show ?thesis
    proof (elim disjE)
      assume "coldAnswer = Fulfilled None"
      with short a ne show ?thesis
        by (simp add: reval_defs exec ff)
    next
      assume "coldAnswer = Failed e"
      with short a ne show ?thesis
        by (simp add: reval_defs exec ff)
    qed
  next
    case long
    from assms(12) show ?thesis
    proof (elim disjE)
      assume "coldAnswer = Fulfilled None"
      with long a ne show ?thesis
        by (simp add: reval_defs exec ff)
    next
      assume "coldAnswer = Failed e"
      with long a ne show ?thesis
        by (simp add: reval_defs exec ff)
    qed
  qed
qed

lemma revalidation_unmodified:
  assumes "url \<noteq> []" "storage_get w url = Some c" "\<not> temp (entries w c)"
    and "policy (entries w c) = Some pol" "\<not> isError (entries w c)"
    and "\<not> satisfiesWithoutRevalidation pol (now w) rq"
    and "promises w (promise (entries w c)) = Fulfilled stored"
    and "promise (entries w c) < next_promise w" "c < next_entry w"
    and "microtasks w = []" "fresh_ok w"
    and "coldAnswer = Fulfilled None \<or> coldAnswer = Failed e"
    and "revalidatedPolicy pol (now w) (headers_only (revalidationHeaders pol rq))
           (map_option (responses w) res) = (pol', False)"
  shows "fetchLog (run this (revalidation this i url rq cb coldAnswer w @
                [Settle (revalidation_promise this c w) (Fulfilled res), Tick, Tick]) w) =
           fetchLog w @ [(cb, revalidationHeaders pol rq, revalidation_promise this c w)] \<and>
         microtasks (run this (revalidation this i url rq cb coldAnswer w @
                [Settle (revalidation_promise this c w) (Fulfilled res), Tick, Tick]) w) =
           [ThenJob url (next_promise w) (Inr (stored, Some pol', False))] \<and>
         policy (entries (run this (revalidation this i url rq cb coldAnswer w @
                [Settle (revalidation_promise this c w) (Fulfilled res), Tick, Tick]) w) c) = Some pol' \<and>
         responses (run this (revalidation this i url rq cb coldAnswer w @
                [Settle (revalidation_promise this c w) (Fulfilled res), Tick, Tick]) w) = responses w \<and>
         filter (\<lambda>(q, k). q = next_promise w) (waiting (run this (revalidation this i url rq cb coldAnswer w @
                [Settle (revalidation_promise this c w) (Fulfilled res), Tick, Tick]) w)) =
           [(next_promise w, ReturnTo i)] \<and>
         storage (run this (revalidation this i url rq cb coldAnswer w @
                [Settle (revalidation_promise this c w) (Fulfilled res), Tick, Tick]) w) url = Some (next_entry w, now w, busyTimeout this) \<and>
         temp (entries (run this (revalidation this i url rq cb coldAnswer w @
                [Settle (revalidation_promise this c w) (Fulfilled res), Tick, Tick]) w) (next_entry w))"
proof -
  note ff = assms(11) fresh_filter
  note a = assms(1-10) assms(13)
  have ne: "c \<noteq> next_entry w" "next_entry w \<noteq> c" using assms(9) by auto
  consider (plain) "\<not> coldStorage this"
    | (flagged) "coldStorage this" "inColdStoarge (entries w c)"
    | (short) "coldStorage this" "\<not> inColdStoarge (entries w c)"
        "timeToLive pol (now w) < 3600000"
    | (long) "coldStorage this" "\<not> inColdStoarge (entries w c)"
        "3600000 \<le> timeToLive pol (now w)"
    by linarith
  then show ?thesis
  proof cases
    case plain
    with a ne show ?thesis
      by (simp add: reval_defs exec ff)
  next
    case flagged
    from assms(12) show ?thesis
    proof (elim disjE)
      assume "coldAnswer = Fulfilled None"
      with flagged a ne show ?thesis
        by (simp add: reval_defs exec ff)
    next
      assume "coldAnswer = Failed e"
      with flagged a ne show ?thesis
        by (simp add: reval_defs exec ff)
    qed
  next
    case short
    from assms(12) show ?thesis
    proof (elim disjE)
      assume "coldAnswer = Fulfilled None"
      with short a ne show ?thesis
        by (simp add: reval_defs exec ff)
    next
      assume "coldAnswer = Failed e"
      with short a ne show ?thesis
        by (simp add: reval_defs exec ff)
    qed
  next
    case long
    from assms(12) show ?thesis
    proof (elim disjE)
      assume "coldAnswer = Fulfilled None"
      with long a ne show ?thesis
        by (simp add: reval_defs exec ff)
    next
      assume "coldAnswer = Failed e"
      with long a ne show ?thesis
        by (simp add: reval_defs exec ff)
    qed
  qed
qed

lemma revalidation_refetch:
  assumes "url \<noteq> []" "storage_get w url = Some c" "\<not> temp (entries w c)"
    and "policy (entries w c) = Some pol" "\<not> isError (entries w c)"
    and "\<not> satisfiesWithoutRevalidation pol (now w) rq"
    and "promises w (promise (entries w c)) = Fulfilled stored"
    and "promise (entries w c) < next_promise w" "c < next_entry w"
    and "microtasks w = []" "fresh_ok w"
    and "coldAnswer = Fulfilled None \<or> coldAnswer = Failed e"
    and "revalidatedPolicy pol (now w) (headers_only (revalidationHeaders pol rq))
           (Some (responses w r)) = (pol', True)"
    and "status (responses w r) = 304"
  shows "fetchLog (run this (revalidation this i url rq cb coldAnswer w @
                [Settle (revalidation_promise this c w) (Fulfilled (Some r)), Tick,
                 Settle (Suc (revalidation_promise this c w)) (Fulfilled again), Tick]) w) =
           fetchLog w @ [(cb, revalidationHeaders pol rq, revalidation_promise this c w),
                         (cb, Map.empty, Suc (revalidation_promise this c w))] \<and>
         microtasks (run this (revalidation this i url rq cb coldAnswer w @
                [Settle (revalidation_promise this c w) (Fulfilled (Some r)), Tick,
                 Settle (Suc (revalidation_promise this c w)) (Fulfilled again), Tick]) w) =
           [ThenJob url (next_promise w) (Inr (again, Some pol', False))] \<and>
         policy (entries (run this (revalidation this i url rq cb coldAnswer w @
                [Settle (revalidation_promise this c w) (Fulfilled (Some r)), Tick,
                 Settle (Suc (revalidation_promise this c w)) (Fulfilled again), Tick]) w) c) = Some pol' \<and>
         responses (run this (revalidation this i url rq cb coldAnswer w @
                [Settle (revalidation_promise this c w) (Fulfilled (Some r)), Tick,
                 Settle (Suc (revalidation_promise this c w)) (Fulfilled again), Tick]) w) = responses w \<and>
         filter (\<lambda>(q, k). q = next_promise w) (waiting (run this (revalidation this i url rq cb coldAnswer w @
                [Settle (revalidation_promise this c w) (Fulfilled (Some r)), Tick,
                 Settle (Suc (revalidation_promise this c w)) (Fulfilled again), Tick]) w)) =
           [(next_promise w, ReturnTo i)] \<and>
         storage (run this (revalidation this i url rq cb coldAnswer w @
                [Settle (revalidation_promise this c w) (Fulfilled (Some r)), Tick,
                 Settle (Suc (revalidation_promise this c w)) (Fulfilled again), Tick]) w) url = Some (next_entry w, now w, busyTimeout this) \<and>
         temp (entries (run this (revalidation this i url rq cb coldAnswer w @
                [Settle (revalidation_promise this c w) (Fulfilled (Some r)), Tick,
                 Settle (Suc (revalidation_promise this c w)) (Fulfilled again), Tick]) w) (next_entry w))"
proof -
  note ff = assms(11) fresh_filter
  note a = assms(1-10) assms(13-)
  have ne: "c \<noteq> next_entry w" "next_entry w \<noteq> c" using assms(9) by auto
  consider (plain) "\<not> coldStorage this"
    | (flagged) "coldStorage this" "inColdStoarge (entries w c)"
    | (short) "coldStorage this" "\<not> inColdStoarge (entries w c)"
        "timeToLive pol (now w) < 3600000"
    | (long) "coldStorage this" "\<not> inColdStoarge (entries w c)"
        "3600000 \<le> timeToLive pol (now w)"
    by linarith
  then show ?thesis
  proof cases
    case plain
    with a ne show ?thesis
      by (simp add: reval_defs exec ff)
  next
    case flagged
    from assms(12) show ?thesis
    proof (elim disjE)
      assume "coldAnswer = Fulfilled None"
      with flagged a ne show ?thesis
        by (simp add: reval_defs exec ff)
    next
      assume "coldAnswer = Failed e"
      with flagged a ne show ?thesis
        by (simp add: reval_defs exec ff)
    qed
  next
    case short
    from assms(12) show ?thesis
    proof (elim disjE)
      assume "coldAnswer = Fulfilled None"
      with short a ne show ?thesis
        by (simp add: reval_defs exec ff)
    next
      assume "coldAnswer = Failed e"
      with short a ne show ?thesis
        by (simp add: reval_defs exec ff)
    qed
  next
    case long
    from assms(12) show ?thesis
    proof (elim disjE)
      assume "coldAnswer = Fulfilled None"
      with long a ne show ?thesis
        by (simp add: reval_defs exec ff)
    next
      assume "coldAnswer = Failed e"
      with long a ne show ?thesis
        by (simp add: reval_defs exec ff)
    qed
  qed
qed


text \<open>
  C4, amended: a call for a key whose stored entry \<open>c\<close> has a policy, is not an error
  and does not satisfy the request without revalidation, with no cold storage or with a
  cold-storage read that finds nothing or fails, makes the coordinator call the fetch
  callback exactly once, with the policy's revalidation headers. With the verdict of
  \<^verbatim>\<open>revalidatedPolicy\<close> on what that fetch resolved to: if not modified, no further
  fetch is made and the coordinator returns the response of the entry's promise with the
  updated policy, which the caller receives when that response is usable; if modified
  and the revalidation response has status 304, exactly one more call
  \<^verbatim>\<open>fetchCallback({})\<close> is made and the coordinator returns what it resolved to, which
  the caller receives likewise. The coordinator returning a value is the handler of
  line 55 being queued with it; the three microtasks after that are the two handlers and
  the return to the caller.
\<close>

theorem C4_revalidation_without_cold_copy:
  fixes this :: cache and w :: world and url :: key and c :: eref and i :: cid
    and rq :: request and cb :: callback and pol pol' :: policy
    and stored res again :: "rref option" and coldAnswer :: pstate and modified :: bool
  defines "fp \<equiv> revalidation_promise this c w"
  defines "asked \<equiv> revalidation this i url rq cb coldAnswer w"
  defines "unmodified \<equiv> asked @ [Settle fp (Fulfilled res), Tick, Tick]"
  defines "refetched \<equiv>
             asked @ [Settle fp (Fulfilled res), Tick, Settle (Suc fp) (Fulfilled again), Tick]"
  assumes "url \<noteq> []" "storage_get w url = Some c" "\<not> temp (entries w c)"
    and "policy (entries w c) = Some pol" "\<not> isError (entries w c)"
    and "\<not> satisfiesWithoutRevalidation pol (now w) rq"
    and "promises w (promise (entries w c)) = Fulfilled stored"
    and "promise (entries w c) < next_promise w" "c < next_entry w"
    and "microtasks w = []" "fresh_ok w"
    and "coldAnswer = Fulfilled None \<or> coldAnswer = Failed e"
    and "revalidatedPolicy pol (now w) (headers_only (revalidationHeaders pol rq))
           (map_option (responses w) res) = (pol', modified)"
  shows "fetchLog (run this asked w) = fetchLog w @ [(cb, revalidationHeaders pol rq, fp)] \<and>
         (\<not> modified \<longrightarrow>
            fetchLog (run this unmodified w) =
              fetchLog w @ [(cb, revalidationHeaders pol rq, fp)] \<and>
            microtasks (run this unmodified w) =
              [ThenJob url (next_promise w) (Inr (stored, Some pol', False))] \<and>
            policy (entries (run this unmodified w) c) = Some pol' \<and>
            (\<forall>old. stored = Some old \<and> headers (responses w old) \<noteq> None \<longrightarrow>
               fetchLog (run this (unmodified @ [Tick, Tick, Tick]) w) =
                 fetchLog w @ [(cb, revalidationHeaders pol rq, fp)] \<and>
               results (run this (unmodified @ [Tick, Tick, Tick]) w) i =
                 Some (Inr (Some old)))) \<and>
         (modified \<and> (\<exists>r. res = Some r \<and> status (responses w r) = 304) \<longrightarrow>
            fetchLog (run this refetched w) =
              fetchLog w @ [(cb, revalidationHeaders pol rq, fp), (cb, Map.empty, Suc fp)] \<and>
            microtasks (run this refetched w) =
              [ThenJob url (next_promise w) (Inr (again, Some pol', False))] \<and>
            policy (entries (run this refetched w) c) = Some pol' \<and>
            (\<forall>new. again = Some new \<and> headers (responses w new) \<noteq> None \<longrightarrow>
               fetchLog (run this (refetched @ [Tick, Tick, Tick]) w) =
                 fetchLog w @ [(cb, revalidationHeaders pol rq, fp), (cb, Map.empty, Suc fp)] \<and>
               results (run this (refetched @ [Tick, Tick, Tick]) w) i =
                 Some (Inr (Some new))))"
proof (intro conjI impI allI)
  show "fetchLog (run this asked w) = fetchLog w @ [(cb, revalidationHeaders pol rq, fp)]"
    unfolding asked_def fp_def by (rule revalidation_first_fetch [OF assms(5-16)])
next
  assume "\<not> modified"
  with assms(17) have rv: "revalidatedPolicy pol (now w)
      (headers_only (revalidationHeaders pol rq)) (map_option (responses w) res) = (pol', False)"
    by simp
  note un = revalidation_unmodified [OF assms(5-16) rv, of this i cb, folded fp_def asked_def,
      folded unmodified_def]
  from un show "fetchLog (run this unmodified w) =
      fetchLog w @ [(cb, revalidationHeaders pol rq, fp)]"
    by blast
  from un show "microtasks (run this unmodified w) =
      [ThenJob url (next_promise w) (Inr (stored, Some pol', False))]"
    by blast
  from un show "policy (entries (run this unmodified w) c) = Some pol'"
    by blast
  fix old
  assume old: "stored = Some old \<and> headers (responses w old) \<noteq> None"
  from un old have pre:
    "microtasks (run this unmodified w) =
       [ThenJob url (next_promise w) (Inr (Some old, Some pol', False))]"
    "headers (responses (run this unmodified w) old) \<noteq> None"
    "filter (\<lambda>(q, k). q = next_promise w) (waiting (run this unmodified w)) =
       [(next_promise w, ReturnTo i)]"
    "storage (run this unmodified w) url = Some (next_entry w, now w, busyTimeout this)"
    "temp (entries (run this unmodified w) (next_entry w))"
    by simp_all
  from handlers_return [OF pre, of this] un
  show "fetchLog (run this (unmodified @ [Tick, Tick, Tick]) w) =
      fetchLog w @ [(cb, revalidationHeaders pol rq, fp)]"
    by (simp add: run_append)
  from handlers_return [OF pre, of this]
  show "results (run this (unmodified @ [Tick, Tick, Tick]) w) i = Some (Inr (Some old))"
    by (simp add: run_append)
next
  assume m: "modified \<and> (\<exists>r. res = Some r \<and> status (responses w r) = 304)"
  then obtain r where r: "res = Some r" "status (responses w r) = 304" by blast
  from m r assms(17) have rv: "revalidatedPolicy pol (now w)
      (headers_only (revalidationHeaders pol rq)) (Some (responses w r)) = (pol', True)"
    by simp
  note re = revalidation_refetch [OF assms(5-16) rv r(2), of this i cb again,
      folded r(1), folded fp_def asked_def, folded refetched_def]
  from re show "fetchLog (run this refetched w) =
      fetchLog w @ [(cb, revalidationHeaders pol rq, fp), (cb, Map.empty, Suc fp)]"
    by blast
  from re show "microtasks (run this refetched w) =
      [ThenJob url (next_promise w) (Inr (again, Some pol', False))]"
    by blast
  from re show "policy (entries (run this refetched w) c) = Some pol'"
    by blast
  fix new
  assume new: "again = Some new \<and> headers (responses w new) \<noteq> None"
  from re new have pre:
    "microtasks (run this refetched w) =
       [ThenJob url (next_promise w) (Inr (Some new, Some pol', False))]"
    "headers (responses (run this refetched w) new) \<noteq> None"
    "filter (\<lambda>(q, k). q = next_promise w) (waiting (run this refetched w)) =
       [(next_promise w, ReturnTo i)]"
    "storage (run this refetched w) url = Some (next_entry w, now w, busyTimeout this)"
    "temp (entries (run this refetched w) (next_entry w))"
    by simp_all
  from handlers_return [OF pre, of this] re
  show "fetchLog (run this (refetched @ [Tick, Tick, Tick]) w) =
      fetchLog w @ [(cb, revalidationHeaders pol rq, fp), (cb, Map.empty, Suc fp)]"
    by (simp add: run_append)
  from handlers_return [OF pre, of this]
  show "results (run this (refetched @ [Tick, Tick, Tick]) w) i = Some (Inr (Some new))"
    by (simp add: run_append)
qed



theorem C4_revalidation_without_cold_copy_witness:
  "fetchLog stale_world = [(7, Map.empty, 2)] \<and>
   fetchLog (run cold_stale_cache
       [Call 1 ''k'' (Some a_request) (Some 8), Tick, Settle 4 (Failed (Rejection ''down'')), Tick]
       stale_world) =
     [(7, Map.empty, 2), (8, [''if-none-match'' \<mapsto> ''v1''], 5)] \<and>
   fetchLog (run cold_stale_cache
       [Call 1 ''k'' (Some a_request) (Some 8), Tick, Settle 4 (Failed (Rejection ''down'')), Tick,
        Settle 5 (Fulfilled (Some 1)), Tick, Tick, Tick, Tick, Tick]
       stale_world) =
     [(7, Map.empty, 2), (8, [''if-none-match'' \<mapsto> ''v1''], 5)] \<and>
   results (run cold_stale_cache
       [Call 1 ''k'' (Some a_request) (Some 8), Tick, Settle 4 (Failed (Rejection ''down'')), Tick,
        Settle 5 (Fulfilled (Some 1)), Tick, Tick, Tick, Tick, Tick]
       stale_world) 1 = Some (Inr (Some 0)) \<and>
   fetchLog (run cold_changed_cache
       [Call 1 ''k'' (Some a_request) (Some 8), Tick, Settle 4 (Fulfilled None), Tick,
        Settle 6 (Fulfilled (Some 1)), Tick, Settle 7 (Fulfilled (Some 0)), Tick,
        Tick, Tick, Tick]
       cold_changed_world) =
     [(7, Map.empty, 2), (8, [''if-none-match'' \<mapsto> ''v1''], 6), (8, Map.empty, 7)] \<and>
   results (run cold_changed_cache
       [Call 1 ''k'' (Some a_request) (Some 8), Tick, Settle 4 (Fulfilled None), Tick,
        Settle 6 (Fulfilled (Some 1)), Tick, Settle 7 (Fulfilled (Some 0)), Tick,
        Tick, Tick, Tick]
       cold_changed_world) 1 = Some (Inr (Some 0))"
proof -
  have url: "''k'' \<noteq> []" by simp
  have down: "Failed (Rejection ''down'') = Fulfilled None \<or>
              Failed (Rejection ''down'') = Failed (Rejection ''down'')" by simp
  have none: "Fulfilled None = Fulfilled None \<or> Fulfilled None = Failed TypeError" by simp
  have same: "revalidatedPolicy (constant_policy False 60000 False) (now stale_world)
                (headers_only (revalidationHeaders (constant_policy False 60000 False) a_request))
                (map_option (responses stale_world) (Some 1)) =
              (constant_policy False 60000 False, False)"
    by simp
  have changed: "revalidatedPolicy (constant_policy False 7200000 True) (now cold_changed_world)
                (headers_only (revalidationHeaders (constant_policy False 7200000 True) a_request))
                (map_option (responses cold_changed_world) (Some 1)) =
              (constant_policy False 7200000 True, True)"
    by simp
  note kept = C4_revalidation_without_cold_copy
      [where this = cold_stale_cache and i = 1 and cb = 8 and again = None,
       OF url stale_world_facts(1-10) down same]
  note fetched_again = C4_revalidation_without_cold_copy
      [where this = cold_changed_cache and i = 1 and cb = 8 and again = "Some 0",
       OF url cold_changed_world_facts(1-10) none changed]
  have heap: "headers (responses stale_world 0) \<noteq> None"
    "headers (responses cold_changed_world 0) \<noteq> None"
    "status (responses cold_changed_world 1) = 304"
    "revalidation_promise cold_stale_cache 1 stale_world = 5"
    "revalidation_promise cold_changed_cache 1 cold_changed_world = 6"
    "next_promise stale_world = 3" "next_promise cold_changed_world = 3"
    by (simp_all add: revalidation_promise_def demoted_on_dispose_def stale_world_def
        cold_changed_world_def concrete)
  from kept fetched_again heap stale_world_facts(11) cold_changed_world_facts(11) show ?thesis
    by (simp add: revalidation_def cold_read_def cold_stale_cache_def cold_changed_cache_def
        new_Cache_def no_options_def js_or_def)
qed


section \<open>Failures\<close>







section \<open>Concurrent callers of one key\<close>










section \<open>Cold-storage demotion\<close>

text \<open>What \<^verbatim>\<open>_putInColdStorage\<close> does to an entry with a policy, and what its callback
  does when the write has settled.\<close>

lemma putInColdStorage_effect:
  assumes "policy (entries w c) = Some pol"
  shows "\<exists>w'. putInColdStorage this url r c w = Inr w' \<and>
           (coldStorage this \<and> \<not> inColdStoarge (entries w c) \<and>
            3600000 \<le> timeToLive pol (now w) \<longrightarrow>
              inColdStoarge (entries w' c) \<and>
              coldSets w' = coldSets w @ [(url, r, timeToLive pol (now w), next_promise w)] \<and>
              promises w' (next_promise w) = Unsettled \<and>
              waiting w' = waiting w @ [(next_promise w, ColdSetSettled c)]) \<and>
           (\<not> coldStorage this \<or> inColdStoarge (entries w c) \<or>
            timeToLive pol (now w) < 3600000 \<longrightarrow> w' = w) \<and>
           (\<forall>c'. c' \<noteq> c \<longrightarrow> entries w' c' = entries w c') \<and>
           \<not> inColdStoarge (entries (resume this (ColdSetSettled c) (Failed err) w') c) \<and>
           resume this (ColdSetSettled c) (Fulfilled ok) w' = w'"
  using assms
  by (auto simp add: putInColdStorage_def coldStorage_set_def new_promise_def await_def resume_def Let_def)



text \<open>Every step of the system: raising the flag of an existing entry, creating an
  entry with the flag set, queueing a coordinator result marked as read from cold
  storage.\<close>

lemma put_raised:
  assumes "putInColdStorage this url r a w = Inr w'" "c < next_entry w" "raised w w' c"
  shows "write_issued w w' c \<and> c = a"
  using assms
  by (auto simp: putInColdStorage_def raised_def write_issued_def coldStorage_set_def new_promise_def
      await_def Let_def split: if_splits option.splits)

lemma put_frame:
  assumes "putInColdStorage this url r a w = Inr w'"
  shows "next_entry w' = next_entry w"
  using assms
  by (auto simp: putInColdStorage_def coldStorage_set_def new_promise_def
      await_def Let_def split: if_splits option.splits)

lemma dispose_entries [simp]: "entries (dispose url c w) = entries w" "coldSets (dispose url c w) = coldSets w"
  "next_entry (dispose url c w) = next_entry w"
  by (simp_all add: dispose_def await_def)

lemma storage_set_old:
  "c < next_entry w \<Longrightarrow> entries (storage_set url e m w) c = entries w c"
  by (simp add: storage_set_def Let_def split: option.splits)

lemma storage_set_misc [simp]:
  "coldSets (storage_set url e m w) = coldSets w"
  "next_entry (storage_set url e m w) = Suc (next_entry w)"
  by (simp_all add: storage_set_def Let_def split: option.splits)

lemma getResult_frame [simp]:
  "entries (getResult this url rq cached cb p w) = entries w"
  "coldSets (getResult this url rq cached cb p w) = coldSets w"
  "next_entry (getResult this url rq cached cb p w) = next_entry w"
  "entries (getResult_fetch url rq cached cb p w) = entries w"
  "coldSets (getResult_fetch url rq cached cb p w) = coldSets w"
  "next_entry (getResult_fetch url rq cached cb p w) = next_entry w"
  by (simp_all add: getResult_def getResult_fetch_def coldStorage_get_def onCacheMissCallback_def new_promise_def await_def Let_def split: option.splits)

lemma getCached_old:
  assumes "c < next_entry w"
  shows "entries (getCached this i url rq cb w) c = entries w c"
    "coldSets (getCached this i url rq cb w) = coldSets w"
  using assms
  by (auto simp: getCached_def getCached_miss_def deliver_def await_def new_promise_def storage_set_old Let_def
      split: option.splits prod.splits)

lemma resume_raised:
  assumes "c < next_entry w" "raised w (resume this k v w) c"
  shows "write_issued w (resume this k v w) c"
proof (cases k)
  case (AfterTemp i url rq cb)
  with assms show ?thesis
    by (cases v) (auto simp: resume_def afterTemp_def raised_def deliver_def getCached_old)
next
  case (AfterHit i url a)
  show ?thesis
  proof (cases v)
    case (Fulfilled r)
    show ?thesis
    proof (cases "policy (entries w a)")
      case None
      with assms AfterHit Fulfilled show ?thesis
        by (simp add: resume_def afterHit_def raised_def deliver_def)
    next
      case (Some pol)
      show ?thesis
      proof (cases "putInColdStorage this url r a w")
        case (Inl err)
        with assms AfterHit Fulfilled Some show ?thesis
          by (simp add: resume_def afterHit_def raised_def deliver_def)
      next
        case (Inr w1)
        have e: "entries (resume this k v w) = entries w1" "coldSets (resume this k v w) = coldSets w1"
          "promises (resume this k v w) = promises w1" "waiting (resume this k v w) = waiting w1"
          using AfterHit Fulfilled Some Inr
          by (cases r; simp add: resume_def afterHit_def deliver_def set_ttl_def set_header_def set_headers_def)+
        have "raised w w1 c" using assms(2) e by (simp add: raised_def)
        from put_raised[OF Inr assms(1) this] e show ?thesis
          by (auto simp add: write_issued_def)
      qed
    qed
  qed (use assms AfterHit in \<open>auto simp: resume_def afterHit_def raised_def deliver_def\<close>)
next
  case (ReturnTo i)
  with assms show ?thesis
    by (cases v) (auto simp: resume_def raised_def deliver_def)
next
  case (AfterColdGet url rq cached cb p)
  with assms show ?thesis
    by (cases v) (auto simp: resume_def afterColdGet_def raised_def getResult_done_def split: option.splits)
next
  case (AfterRevalidation url rq cached cb hdrs p)
  with assms show ?thesis
    by (cases v)
       (auto simp: resume_def afterRevalidation_def raised_def getResult_done_def await_def
          onCacheMissCallback_def new_promise_def Let_def split: option.splits prod.splits if_splits)
next
  case (AfterStored url pol p)
  with assms show ?thesis
    by (cases v) (auto simp: resume_def afterSecondAwait_def raised_def getResult_done_def)
next
  case (AfterRefetch url pol p)
  with assms show ?thesis
    by (cases v) (auto simp: resume_def afterSecondAwait_def raised_def getResult_done_def)
next
  case (AfterFetch url rq p)
  with assms show ?thesis
    by (cases v) (auto simp: resume_def afterFetch_def raised_def getResult_done_def split: option.splits)
next
  case (AfterDisposed url a)
  show ?thesis
  proof (cases v)
    case (Fulfilled r)
    show ?thesis
    proof (cases "putInColdStorage this url r a w")
      case (Inl err)
      with assms AfterDisposed Fulfilled show ?thesis by (simp add: resume_def raised_def)
    next
      case (Inr w1)
      then have e: "resume this k v w = w1" using AfterDisposed Fulfilled by (simp add: resume_def)
      from put_raised[OF Inr assms(1)] assms(2) e show ?thesis by auto
    qed
  qed (use assms AfterDisposed in \<open>auto simp: resume_def raised_def\<close>)
next
  case (ColdSetSettled a)
  with assms show ?thesis
    by (cases v) (auto simp: resume_def raised_def split: if_splits)
qed

lemma thenHandler_old:
  assumes "c < next_entry w"
  shows "entries (thenHandler url p out w) c = entries w c"
  using assms
  by (auto simp: thenHandler_def storage_set_old storage_del_def set_headers_def set_header_def
        random_2000_def Let_def split: sum.splits option.splits prod.splits list.splits)

lemma catchHandler_old:
  assumes "c < next_entry w"
  shows "entries (catchHandler this url p out w) c = entries w c"
  using assms
  by (auto simp: catchHandler_def settle_def storage_set_old split: sum.splits)

lemma flag_raised_only_with_write:
  assumes "c < next_entry w" "raised w (step this w e) c"
  shows "write_issued w (step this w e) c"
proof (cases e)
  case (Call i url rq cb)
  with assms show ?thesis by (simp add: raised_def getCached_old)
next
  case (Settle p v)
  with assms show ?thesis by (auto simp: raised_def settle_def)
next
  case (Advance d)
  with assms show ?thesis by (auto simp: raised_def)
next
  case Tick
  show ?thesis
  proof (cases "microtasks w")
    case Nil
    with Tick assms show ?thesis by (simp add: raised_def)
  next
    case (Cons j js)
    let ?w0 = "w\<lparr>microtasks := js\<rparr>"
    have st: "step this w e = run_job this j ?w0" using Tick Cons by simp
    have c0: "c < next_entry ?w0" using assms(1) by simp
    have r0: "raised ?w0 (run_job this j ?w0) c" using assms(2) st by (simp add: raised_def)
    have "write_issued ?w0 (run_job this j ?w0) c"
    proof (cases j)
      case (Resume k v)
      with resume_raised[OF c0, of this k v] r0 show ?thesis by (simp add: run_job_def)
    next
      case (ThenJob url p out)
      with r0 thenHandler_old[OF c0, of url p out] show ?thesis by (simp add: run_job_def raised_def)
    next
      case (CatchJob url p out)
      with r0 catchHandler_old[OF c0, of this url p out] show ?thesis by (simp add: run_job_def raised_def)
    qed
    then show ?thesis using st by (simp add: write_issued_def)
  qed
qed


lemma storage_set_new:
  assumes "next_entry w \<le> c" "c < next_entry (storage_set url e m w)"
  shows "entries (storage_set url e m w) c = e"
  using assms by (simp add: storage_set_def Let_def split: option.splits)

lemma getCached_new:
  assumes "next_entry w \<le> c" "c < next_entry (getCached this i url rq cb w)"
  shows "\<not> inColdStoarge (entries (getCached this i url rq cb w) c)"
  using assms
  by (auto simp: getCached_def getCached_miss_def deliver_def await_def new_promise_def
      storage_set_new Let_def split: option.splits prod.splits if_splits)

lemma put_next_entry:
  "putInColdStorage this url r a w = Inr w' \<Longrightarrow> next_entry w' = next_entry w"
  by (auto simp: putInColdStorage_def coldStorage_set_def new_promise_def
      await_def Let_def split: if_splits option.splits)

lemma resume_new:
  assumes "next_entry w \<le> c" "c < next_entry (resume this k v w)"
  shows "\<not> inColdStoarge (entries (resume this k v w) c)"
proof (cases k)
  case (AfterTemp i url rq cb)
  with assms show ?thesis
    by (cases v) (auto simp: resume_def afterTemp_def deliver_def getCached_new)
next
  case (AfterHit i url a)
  with assms show ?thesis
    by (cases v)
       (auto simp: resume_def afterHit_def deliver_def set_ttl_def set_header_def set_headers_def
          dest: put_next_entry split: option.splits sum.splits if_splits)
next
  case (ReturnTo i)
  with assms show ?thesis by (cases v) (auto simp: resume_def deliver_def)
next
  case (AfterColdGet url rq cached cb p)
  with assms show ?thesis
    by (cases v) (auto simp: resume_def afterColdGet_def getResult_done_def getResult_fetch_def onCacheMissCallback_def new_promise_def await_def Let_def split: option.splits if_splits)
next
  case (AfterRevalidation url rq cached cb hdrs p)
  with assms show ?thesis
    by (cases v)
       (auto simp: resume_def afterRevalidation_def getResult_done_def await_def
          onCacheMissCallback_def new_promise_def Let_def split: option.splits prod.splits if_splits)
next
  case (AfterStored url pol p)
  with assms show ?thesis
    by (cases v) (auto simp: resume_def afterSecondAwait_def getResult_done_def)
next
  case (AfterRefetch url pol p)
  with assms show ?thesis
    by (cases v) (auto simp: resume_def afterSecondAwait_def getResult_done_def)
next
  case (AfterFetch url rq p)
  with assms show ?thesis
    by (cases v) (auto simp: resume_def afterFetch_def getResult_done_def split: option.splits if_splits)
next
  case (AfterDisposed url a)
  with assms show ?thesis
    by (cases v) (auto simp: resume_def dest: put_next_entry split: sum.splits if_splits)
next
  case (ColdSetSettled a)
  with assms show ?thesis by (cases v) (auto simp: resume_def split: if_splits)
qed

lemma thenHandler_new:
  assumes "next_entry w \<le> c" "c < next_entry (thenHandler url p out w)"
    "inColdStoarge (entries (thenHandler url p out w) c)"
  shows "\<exists>r pol. out = Inr (r, pol, True)"
  using assms
  by (auto simp: thenHandler_def storage_set_new storage_del_def set_headers_def set_header_def
        random_2000_def Let_def split: sum.splits option.splits prod.splits list.splits if_splits)

lemma catchHandler_new:
  assumes "next_entry w \<le> c" "c < next_entry (catchHandler this url p out w)"
  shows "\<not> inColdStoarge (entries (catchHandler this url p out w) c)"
  using assms
  by (auto simp: catchHandler_def settle_def storage_set_new split: sum.splits)

lemma new_entry_flag:
  assumes "next_entry w \<le> c" "c < next_entry (step this w e)"
    "inColdStoarge (entries (step this w e) c)"
  shows "\<exists>url p r pol js. e = Tick \<and> microtasks w = ThenJob url p (Inr (r, pol, True)) # js"
proof (cases e)
  case (Call i url rq cb)
  with assms getCached_new[OF assms(1), of this i url rq cb] show ?thesis by simp
next
  case (Settle p v)
  with assms show ?thesis by (auto simp: settle_def split: if_splits)
next
  case (Advance d)
  with assms show ?thesis by (auto split: if_splits)
next
  case Tick
  show ?thesis
  proof (cases "microtasks w")
    case Nil
    with Tick assms show ?thesis by simp
  next
    case (Cons j js)
    let ?w0 = "w\<lparr>microtasks := js\<rparr>"
    have st: "step this w e = run_job this j ?w0" using Tick Cons by simp
    have c0: "next_entry ?w0 \<le> c" using assms(1) by simp
    show ?thesis
    proof (cases j)
      case (Resume k v)
      with resume_new[OF c0, of this k v] assms(2,3) st show ?thesis by (simp add: run_job_def)
    next
      case (ThenJob url p out)
      with thenHandler_new[OF c0, of url p out] assms(2,3) st Tick Cons show ?thesis
        by (auto simp add: run_job_def)
    next
      case (CatchJob url p out)
      with catchHandler_new[OF c0, of this url p out] assms(2,3) st show ?thesis
        by (simp add: run_job_def)
    qed
  qed
qed


lemma cold_results_simps [simp]:
  "cold_results (w\<lparr>waiting := ws\<rparr>) = cold_results w"
  "cold_results (w\<lparr>results := rs\<rparr>) = cold_results w"
  "cold_results (w\<lparr>entries := es\<rparr>) = cold_results w"
  "cold_results (w\<lparr>promises := ps\<rparr>) = cold_results w"
  "cold_results (w\<lparr>next_promise := np\<rparr>) = cold_results w"
  "cold_results (w\<lparr>next_entry := ne\<rparr>) = cold_results w"
  "cold_results (w\<lparr>fetchLog := fl\<rparr>) = cold_results w"
  "cold_results (w\<lparr>coldGets := cg\<rparr>) = cold_results w"
  "cold_results (w\<lparr>coldSets := cs\<rparr>) = cold_results w"
  "cold_results (w\<lparr>storage := st\<rparr>) = cold_results w"
  "cold_results (w\<lparr>responses := rp\<rparr>) = cold_results w"
  "cold_results (w\<lparr>jitters := ji\<rparr>) = cold_results w"
  "cold_results (w\<lparr>now := t\<rparr>) = cold_results w"
  by (simp_all add: cold_results_def)

lemma cold_results_await [simp]:
  "cold_results (await p k w) = cold_results w"
  by (auto simp: cold_results_def await_def)

lemma cold_results_settle [simp]:
  "cold_results (settle p v w) = cold_results w"
  by (auto simp: cold_results_def settle_def)

lemma cold_results_done:
  "cold_results (getResult_done url p out w) =
     cold_results w \<union> (if \<exists>r pol. out = Inr (r, pol, True) then {ThenJob url p out} else {})"
  by (auto simp: cold_results_def getResult_done_def)

lemma cold_results_fetch [simp]:
  "cold_results (getResult_fetch url rq cached cb p w) = cold_results w"
  by (simp add: getResult_fetch_def onCacheMissCallback_def new_promise_def Let_def split: option.splits)

lemma cold_results_dispose [simp]:
  "cold_results (dispose url c w) = cold_results w"
  by (simp add: dispose_def)

lemma cold_results_storage_set [simp]:
  "cold_results (storage_set url e m w) = cold_results w"
  by (simp add: storage_set_def Let_def split: option.splits)

lemma cold_results_getCached [simp]:
  "cold_results (getCached this i url rq cb w) = cold_results w"
  by (simp add: getCached_def getCached_miss_def getResult_def coldStorage_get_def deliver_def new_promise_def Let_def
        split: option.splits prod.splits)

lemma cold_results_put:
  "putInColdStorage this url r a w = Inr w' \<Longrightarrow> cold_results w' = cold_results w"
  by (auto simp: putInColdStorage_def coldStorage_set_def new_promise_def Let_def split: if_splits option.splits)

lemma cold_results_pop:
  "cold_results (w\<lparr>microtasks := js\<rparr>) \<subseteq> (\<Union>j \<in> set js. {j})"
  by (auto simp: cold_results_def)

lemma cold_result_origin:
  assumes "j \<in> cold_results (step this w e)" "j \<notin> cold_results w"
  shows "\<exists>url rq cached cb p r js.
           e = Tick \<and>
           microtasks w = Resume (AfterColdGet url rq cached cb p) (Fulfilled (Some r)) # js \<and>
           j = ThenJob url p (Inr (Some r, Some (CachePolicy_class this (now w) rq (responses w r)), True))"
proof (cases e)
  case (Call i url rq cb)
  with assms show ?thesis by simp
next
  case (Settle p v)
  with assms show ?thesis by (auto split: if_splits)
next
  case (Advance d)
  with assms show ?thesis by (auto split: if_splits)
next
  case Tick
  show ?thesis
  proof (cases "microtasks w")
    case Nil
    with Tick assms show ?thesis by simp
  next
    case (Cons j0 js)
    let ?w0 = "w\<lparr>microtasks := js\<rparr>"
    have st: "step this w e = run_job this j0 ?w0" using Tick Cons by simp
    have sub: "cold_results ?w0 \<subseteq> cold_results w"
      using Cons by (auto simp: cold_results_def)
    have new: "j \<in> cold_results (run_job this j0 ?w0)" "j \<notin> cold_results ?w0"
      using assms st sub by auto
    show ?thesis
    proof (cases j0)
      case (Resume k v)
      show ?thesis
      proof (cases k)
        case (AfterColdGet url rq cached cb p)
        with new Resume Tick Cons show ?thesis
          by (cases v) (auto simp: run_job_def resume_def afterColdGet_def cold_results_done split: option.splits if_splits)
      next
        case (AfterHit i url a)
        with new Resume show ?thesis
          by (cases v)
             (auto simp: run_job_def resume_def afterHit_def deliver_def set_ttl_def set_header_def
                set_headers_def dest: cold_results_put split: option.splits sum.splits)
      next
        case (AfterDisposed url a)
        with new Resume show ?thesis
          by (cases v) (auto simp: run_job_def resume_def dest: cold_results_put split: sum.splits)
      next
        case (AfterRevalidation url rq cached cb hdrs p)
        with new Resume show ?thesis
          by (cases v)
             (auto simp: run_job_def resume_def afterRevalidation_def cold_results_done
                onCacheMissCallback_def new_promise_def Let_def split: option.splits prod.splits if_splits)
      qed (use new Resume in \<open>cases v;
             auto simp: run_job_def resume_def afterTemp_def afterSecondAwait_def afterFetch_def deliver_def
               cold_results_done split: option.splits if_splits\<close>)+
    next
      case (ThenJob url p out)
      with new show ?thesis
        by (auto simp: run_job_def thenHandler_def cold_results_def storage_del_def set_headers_def set_header_def
              random_2000_def storage_set_def dispose_def await_def Let_def
              split: sum.splits option.splits prod.splits list.splits if_splits)
    next
      case (CatchJob url p out)
      with new show ?thesis
        by (auto simp: run_job_def catchHandler_def split: sum.splits)
    qed
  qed
qed

lemma long_world_facts:
  "storage_get long_world ''k'' = Some 1"
  "policy (entries long_world 1) = Some (constant_policy True 7200000 False)"
  "inColdStoarge (entries long_world 1) = False"
  "coldSets long_world = []"
  "next_promise long_world = 3"
  by (simp_all add: long_world_def concrete)



text \<open>
  C7, as stated, for every entry: in \<open>cold_found_world\<close> the stored entry 1 was built
  from a copy read back from the cold storage (line 89). Its flag is set although the
  cache has never issued a write to the cold storage, and the time-to-live of its
  policy is one minute, less than an hour.
\<close>

theorem C7_cold_read_entry_is_flagged_counterexample:
  "storage_get cold_found_world ''k'' = Some 1 \<and>
   inColdStoarge (entries cold_found_world 1) \<and>
   policy (entries cold_found_world 1) = Some (constant_policy False 60000 False) \<and>
   timeToLive (constant_policy False 60000 False) (now cold_found_world) < 3600000 \<and>
   coldSets cold_found_world = [] \<and>
   fetchLog cold_found_world = []"
  by (simp add: cold_found_world_def concrete)

text \<open>
  C7, amended: for every entry, \<^verbatim>\<open>inColdStoarge\<close> is true only if the entry was built
  from a copy read back from the cold storage or a write to the cold storage has been
  issued for it. In detail, for every step of the system: (1) \<^verbatim>\<open>_putInColdStorage\<close> on
  an entry with a policy sets the flag exactly when it issues a write in the same
  synchronous step, which it does only with a cold storage configured, the flag not yet
  set and a time-to-live of at least one hour (3600000 ms); in every other case, a
  shorter time-to-live among them, it changes nothing; when the write fails the callback
  resets the flag, and when it succeeds the callback changes nothing. (2) A step that
  raises the flag of an existing entry has issued such a write, which is in flight with
  the rollback callback of that entry registered. (3) A step that creates an entry with
  the flag set is the handler of line 55 running on a coordinator result marked
  \<^verbatim>\<open>inColdStoarge\<close>, and (4) such a result is only produced when the coordinator is
  resumed by a cold-storage read that found a copy.
\<close>

theorem C7_cold_flag_follows_write:
  "(policy (entries w c) = Some pol \<longrightarrow>
      (\<exists>w'. putInColdStorage this url r c w = Inr w' \<and>
         (coldStorage this \<and> \<not> inColdStoarge (entries w c) \<and>
          3600000 \<le> timeToLive pol (now w) \<longrightarrow>
            inColdStoarge (entries w' c) \<and>
            coldSets w' = coldSets w @ [(url, r, timeToLive pol (now w), next_promise w)] \<and>
            promises w' (next_promise w) = Unsettled \<and>
            waiting w' = waiting w @ [(next_promise w, ColdSetSettled c)]) \<and>
         (\<not> coldStorage this \<or> inColdStoarge (entries w c) \<or>
          timeToLive pol (now w) < 3600000 \<longrightarrow> w' = w) \<and>
         (\<forall>c'. c' \<noteq> c \<longrightarrow> entries w' c' = entries w c') \<and>
         \<not> inColdStoarge (entries (resume this (ColdSetSettled c) (Failed err) w') c) \<and>
         resume this (ColdSetSettled c) (Fulfilled ok) w' = w')) \<and>
   (c < next_entry w \<and> \<not> inColdStoarge (entries w c) \<and>
    inColdStoarge (entries (step this w e) c) \<longrightarrow>
      (\<exists>url' r' t p. coldSets (step this w e) = coldSets w @ [(url', r', t, p)] \<and>
         3600000 \<le> t \<and> promises (step this w e) p = Unsettled \<and>
         (p, ColdSetSettled c) \<in> set (waiting (step this w e)))) \<and>
   (next_entry w \<le> c \<and> c < next_entry (step this w e) \<and>
    inColdStoarge (entries (step this w e) c) \<longrightarrow>
      (\<exists>url' p r' pol' js. e = Tick \<and>
         microtasks w = ThenJob url' p (Inr (r', pol', True)) # js)) \<and>
   (j \<in> cold_results (step this w e) \<and> j \<notin> cold_results w \<longrightarrow>
      (\<exists>url' rq cached cb p copy js. e = Tick \<and>
         microtasks w =
           Resume (AfterColdGet url' rq cached cb p) (Fulfilled (Some copy)) # js \<and>
         j = ThenJob url' p
               (Inr (Some copy,
                     Some (CachePolicy_class this (now w) rq (responses w copy)), True))))"
proof (intro conjI impI)
  assume "policy (entries w c) = Some pol"
  then show "\<exists>w'. putInColdStorage this url r c w = Inr w' \<and>
         (coldStorage this \<and> \<not> inColdStoarge (entries w c) \<and>
          3600000 \<le> timeToLive pol (now w) \<longrightarrow>
            inColdStoarge (entries w' c) \<and>
            coldSets w' = coldSets w @ [(url, r, timeToLive pol (now w), next_promise w)] \<and>
            promises w' (next_promise w) = Unsettled \<and>
            waiting w' = waiting w @ [(next_promise w, ColdSetSettled c)]) \<and>
         (\<not> coldStorage this \<or> inColdStoarge (entries w c) \<or>
          timeToLive pol (now w) < 3600000 \<longrightarrow> w' = w) \<and>
         (\<forall>c'. c' \<noteq> c \<longrightarrow> entries w' c' = entries w c') \<and>
         \<not> inColdStoarge (entries (resume this (ColdSetSettled c) (Failed err) w') c) \<and>
         resume this (ColdSetSettled c) (Fulfilled ok) w' = w'"
    by (rule putInColdStorage_effect)
next
  assume "c < next_entry w \<and> \<not> inColdStoarge (entries w c) \<and>
    inColdStoarge (entries (step this w e) c)"
  then have "write_issued w (step this w e) c"
    by (intro flag_raised_only_with_write) (simp_all add: raised_def)
  then show "\<exists>url' r' t p. coldSets (step this w e) = coldSets w @ [(url', r', t, p)] \<and>
         3600000 \<le> t \<and> promises (step this w e) p = Unsettled \<and>
         (p, ColdSetSettled c) \<in> set (waiting (step this w e))"
    by (simp add: write_issued_def)
next
  assume "next_entry w \<le> c \<and> c < next_entry (step this w e) \<and>
    inColdStoarge (entries (step this w e) c)"
  then show "\<exists>url' p r' pol' js. e = Tick \<and>
         microtasks w = ThenJob url' p (Inr (r', pol', True)) # js"
    using new_entry_flag[of w c this e] by simp
next
  assume "j \<in> cold_results (step this w e) \<and> j \<notin> cold_results w"
  then show "\<exists>url' rq cached cb p copy js. e = Tick \<and>
         microtasks w =
           Resume (AfterColdGet url' rq cached cb p) (Fulfilled (Some copy)) # js \<and>
         j = ThenJob url' p
               (Inr (Some copy,
                     Some (CachePolicy_class this (now w) rq (responses w copy)), True))"
    using cold_result_origin[of j this w e] by simp
qed

theorem C7_cold_flag_follows_write_witness:
  "policy (entries long_world 1) = Some (constant_policy True 7200000 False) \<and>
   inColdStoarge (entries long_world 1) = False \<and>
   inColdStoarge (entries (run cold_long_cache demotion_hit long_world) 1) = True \<and>
   coldSets (run cold_long_cache demotion_hit long_world) = [(''k'', Some 0, 7200000, 3)] \<and>
   inColdStoarge (entries
     (run cold_long_cache (demotion_hit @ [Settle 3 (Failed (Rejection ''full'')), Tick]) long_world) 1)
     = False \<and>
   (\<exists>w'. putInColdStorage cold_long_cache ''k'' (Some 0) 1 long_world = Inr w' \<and>
      inColdStoarge (entries w' 1) \<and>
      coldSets w' = [(''k'', Some 0, 7200000, 3)] \<and>
      promises w' 3 = Unsettled \<and>
      \<not> inColdStoarge
          (entries (resume cold_long_cache (ColdSetSettled 1) (Failed (Rejection ''full'')) w') 1)) \<and>
   1 < next_entry hit_pending \<and>
   \<not> inColdStoarge (entries hit_pending 1) \<and>
   inColdStoarge (entries (step cold_long_cache hit_pending Tick) 1) \<and>
   (\<exists>url r t p.
      coldSets (step cold_long_cache hit_pending Tick) = coldSets hit_pending @ [(url, r, t, p)] \<and>
      3600000 \<le> t \<and> promises (step cold_long_cache hit_pending Tick) p = Unsettled \<and>
      (p, ColdSetSettled 1) \<in> set (waiting (step cold_long_cache hit_pending Tick))) \<and>
   next_entry cold_result_queued = 1 \<and>
   next_entry (step cold_stale_cache cold_result_queued Tick) = 2 \<and>
   inColdStoarge (entries (step cold_stale_cache cold_result_queued Tick) 1) \<and>
   (\<exists>url p r pol js.
      microtasks cold_result_queued = ThenJob url p (Inr (r, pol, True)) # js) \<and>
   cold_results cold_read_done = {} \<and>
   cold_results cold_result_queued =
     {ThenJob ''k'' 0 (Inr (Some 0, Some (constant_policy False 60000 False), True))} \<and>
   (\<exists>rq cached cb js.
      microtasks cold_read_done =
        Resume (AfterColdGet ''k'' rq cached cb 0) (Fulfilled (Some 0)) # js)"
proof -
  have run: "inColdStoarge (entries long_world 1) = False"
    "inColdStoarge (entries (run cold_long_cache demotion_hit long_world) 1) = True"
    "coldSets (run cold_long_cache demotion_hit long_world) = [(''k'', Some 0, 7200000, 3)]"
    "inColdStoarge (entries
       (run cold_long_cache (demotion_hit @ [Settle 3 (Failed (Rejection ''full'')), Tick]) long_world) 1)
       = False"
    by (simp_all add: long_world_def demotion_hit_def concrete)
  have pre: "coldStorage cold_long_cache \<and> \<not> inColdStoarge (entries long_world 1) \<and>
             3600000 \<le> timeToLive (constant_policy True 7200000 False) (now long_world)"
    by (simp add: long_world_def concrete)
  note whole = C7_cold_flag_follows_write
      [where w = long_world and c = 1 and pol = "constant_policy True 7200000 False"
         and this = cold_long_cache and url = "''k''" and r = "Some 0"
         and err = "Rejection ''full''"]
  note put = whole [THEN conjunct1, THEN mp, OF long_world_facts(2)]
  then obtain w' where "putInColdStorage cold_long_cache ''k'' (Some 0) 1 long_world = Inr w'"
    "inColdStoarge (entries w' 1)"
    "coldSets w' = coldSets long_world @
       [(''k'', Some 0, timeToLive (constant_policy True 7200000 False) (now long_world),
         next_promise long_world)]"
    "promises w' (next_promise long_world) = Unsettled"
    "\<not> inColdStoarge
        (entries (resume cold_long_cache (ColdSetSettled 1) (Failed (Rejection ''full'')) w') 1)"
    using pre by blast
  then have local: "\<exists>w'. putInColdStorage cold_long_cache ''k'' (Some 0) 1 long_world = Inr w' \<and>
      inColdStoarge (entries w' 1) \<and>
      coldSets w' = [(''k'', Some 0, 7200000, 3)] \<and>
      promises w' 3 = Unsettled \<and>
      \<not> inColdStoarge
          (entries (resume cold_long_cache (ColdSetSettled 1) (Failed (Rejection ''full'')) w') 1)"
    using long_world_facts by auto
  have up: "1 < next_entry hit_pending" "\<not> inColdStoarge (entries hit_pending 1)"
    "inColdStoarge (entries (step cold_long_cache hit_pending Tick) 1)"
    by (simp_all add: hit_pending_def long_world_def concrete)
  have raise: "\<exists>url r t p.
      coldSets (step cold_long_cache hit_pending Tick) = coldSets hit_pending @ [(url, r, t, p)] \<and>
      3600000 \<le> t \<and> promises (step cold_long_cache hit_pending Tick) p = Unsettled \<and>
      (p, ColdSetSettled 1) \<in> set (waiting (step cold_long_cache hit_pending Tick))"
    using C7_cold_flag_follows_write
      [where w = hit_pending and c = 1 and this = cold_long_cache and e = Tick,
       THEN conjunct2, THEN conjunct1, THEN mp] up
    by simp
  have made: "next_entry cold_result_queued = 1"
    "next_entry (step cold_stale_cache cold_result_queued Tick) = 2"
    "inColdStoarge (entries (step cold_stale_cache cold_result_queued Tick) 1)"
    by (simp_all add: cold_result_queued_def cold_read_done_def concrete)
  have origin: "\<exists>url p r pol js.
      microtasks cold_result_queued = ThenJob url p (Inr (r, pol, True)) # js"
    using C7_cold_flag_follows_write
      [where w = cold_result_queued and c = 1 and this = cold_stale_cache and e = Tick,
       THEN conjunct2, THEN conjunct2, THEN conjunct1, THEN mp] made
    by simp
  have queued: "cold_results cold_read_done = {}"
    "cold_results cold_result_queued =
       {ThenJob ''k'' 0 (Inr (Some 0, Some (constant_policy False 60000 False), True))}"
    by (auto simp add: cold_results_def cold_result_queued_def cold_read_done_def concrete)
  have "\<exists>url' rq cached cb p copy js. Tick = Tick \<and>
      microtasks cold_read_done =
        Resume (AfterColdGet url' rq cached cb p) (Fulfilled (Some copy)) # js \<and>
      ThenJob ''k'' 0 (Inr (Some 0, Some (constant_policy False 60000 False), True)) =
        ThenJob url' p
          (Inr (Some copy,
                Some (CachePolicy_class cold_stale_cache (now cold_read_done) rq
                        (responses cold_read_done copy)), True))"
    using C7_cold_flag_follows_write
      [where w = cold_read_done and this = cold_stale_cache and e = Tick
         and j = "ThenJob ''k'' 0 (Inr (Some 0, Some (constant_policy False 60000 False), True))",
       THEN conjunct2, THEN conjunct2, THEN conjunct2, THEN mp]
      queued
    unfolding cold_result_queued_def by simp
  then have read: "\<exists>rq cached cb js.
      microtasks cold_read_done =
        Resume (AfterColdGet ''k'' rq cached cb 0) (Fulfilled (Some 0)) # js"
    by auto
  from run long_world_facts(2) local up raise made origin queued read show ?thesis
    by (intro conjI)
qed

end
